theory Spec2Isabelle
  imports Complex_Main
begin

section \<open>Numbers and arrays\<close>

text \<open>
  The notebook computes on numpy \<open>float64\<close> arrays. A float is modelled as a real
  number or one of the three special values of IEEE arithmetic. The special values
  follow the IEEE rules, so that a division by zero yields an infinity or NaN and does
  not raise, as in numpy. The finite result of an addition, a subtraction, a division or
  a square is rounded; the sign of zero is not represented.
\<close>

datatype fl = Fin real | PInf | NInf | NaN

datatype error =
  AttributeError | IndexError | ValueError | FileNotFoundError | OtherError string

type_synonym vec = "fl list"
type_synonym matrix = "fl list list"

section \<open>The collaborators\<close>

text \<open>
  The regressors of scikit-learn and its \<open>train_test_split\<close> are not part of the
  notebook: they are parameters of the model. \<open>linreg_fit X y\<close> is
  \<open>LinearRegression().fit(X, y)\<close>, \<open>lasso_fit X y\<close> is \<open>Lasso().fit(X, y)\<close>,
  \<open>model_predict m X\<close> is \<open>m.predict(X)\<close>; each may raise. The type \<open>'m\<close> is the
  type of fitted regressors.

  The rounding of the float arithmetic is a parameter too: \<open>nearest x\<close> is the
  magnitude that the arithmetic delivers for the exact magnitude \<open>x\<close>. It is
  \<open>nearest64\<close> below for float64; with the identity no result is rounded.
\<close>

record 'm env =
  linreg_fit :: "matrix \<Rightarrow> vec \<Rightarrow> error + 'm"
  lasso_fit :: "matrix \<Rightarrow> vec \<Rightarrow> error + 'm"
  model_predict :: "'m \<Rightarrow> matrix \<Rightarrow> error + vec"
  train_test_split :: "matrix \<Rightarrow> vec \<Rightarrow> fl \<Rightarrow> error + (matrix \<times> matrix \<times> vec \<times> vec)"
  nearest :: "real \<Rightarrow> real"



text \<open>
  The float for an exact finite result: its magnitude is rounded, a rounded magnitude
  from \<open>2 ^ 1024\<close> on is an overflow to the infinity of its sign.
\<close>

definition fl_round :: "'m env \<Rightarrow> real \<Rightarrow> fl" where
  "fl_round env r =
     (let v = \<bar>nearest env \<bar>r\<bar>\<bar>
      in if 2 ^ 1024 \<le> v then (if r < 0 then NInf else PInf)
         else Fin (if r < 0 then - v else v))"

fun is_finite :: "fl \<Rightarrow> bool" where
  "is_finite (Fin r) = True"
| "is_finite PInf = False"
| "is_finite NInf = False"
| "is_finite NaN = False"

fun fl_neg :: "fl \<Rightarrow> fl" where
  "fl_neg (Fin r) = Fin (- r)"
| "fl_neg PInf = NInf"
| "fl_neg NInf = PInf"
| "fl_neg NaN = NaN"

fun fl_add :: "'m env \<Rightarrow> fl \<Rightarrow> fl \<Rightarrow> fl" where
  "fl_add env (Fin a) (Fin b) = fl_round env (a + b)"
| "fl_add env (Fin a) PInf = PInf"
| "fl_add env (Fin a) NInf = NInf"
| "fl_add env PInf (Fin b) = PInf"
| "fl_add env PInf PInf = PInf"
| "fl_add env NInf (Fin b) = NInf"
| "fl_add env NInf NInf = NInf"
| "fl_add env PInf NInf = NaN"
| "fl_add env NInf PInf = NaN"
| "fl_add env NaN b = NaN"
| "fl_add env a NaN = NaN"

definition fl_sub :: "'m env \<Rightarrow> fl \<Rightarrow> fl \<Rightarrow> fl" where
  "fl_sub env a b = fl_add env a (fl_neg b)"

fun fl_div :: "'m env \<Rightarrow> fl \<Rightarrow> fl \<Rightarrow> fl" where
  "fl_div env (Fin a) (Fin b) =
     (if b \<noteq> 0 then fl_round env (a / b)
      else if 0 < a then PInf else if a < 0 then NInf else NaN)"
| "fl_div env (Fin a) PInf = Fin 0"
| "fl_div env (Fin a) NInf = Fin 0"
| "fl_div env PInf (Fin b) = (if b < 0 then NInf else PInf)"
| "fl_div env NInf (Fin b) = (if b < 0 then PInf else NInf)"
| "fl_div env PInf PInf = NaN"
| "fl_div env PInf NInf = NaN"
| "fl_div env NInf PInf = NaN"
| "fl_div env NInf NInf = NaN"
| "fl_div env NaN b = NaN"
| "fl_div env a NaN = NaN"

fun fl_abs :: "fl \<Rightarrow> fl" where
  "fl_abs (Fin r) = Fin \<bar>r\<bar>"
| "fl_abs PInf = PInf"
| "fl_abs NInf = PInf"
| "fl_abs NaN = NaN"

text \<open>\<open>x ** 2\<close>\<close>

fun fl_sq :: "'m env \<Rightarrow> fl \<Rightarrow> fl" where
  "fl_sq env (Fin r) = fl_round env (r * r)"
| "fl_sq env PInf = PInf"
| "fl_sq env NInf = PInf"
| "fl_sq env NaN = NaN"

text \<open>The comparisons \<open><=\<close> and \<open><\<close> of floats: false as soon as one side is NaN.\<close>

fun fl_le :: "fl \<Rightarrow> fl \<Rightarrow> bool" where
  "fl_le NaN b = False"
| "fl_le a NaN = False"
| "fl_le NInf b = True"
| "fl_le a PInf = True"
| "fl_le (Fin a) (Fin b) = (a \<le> b)"
| "fl_le PInf b = False"
| "fl_le a NInf = False"

fun fl_lt :: "fl \<Rightarrow> fl \<Rightarrow> bool" where
  "fl_lt NaN b = False"
| "fl_lt a NaN = False"
| "fl_lt a b = (fl_le a b \<and> a \<noteq> b)"

text \<open>The minimum that \<open>ndarray.min\<close> folds with: NaN wins.\<close>

definition fl_min :: "fl \<Rightarrow> fl \<Rightarrow> fl" where
  "fl_min a b = (if a = NaN \<or> b = NaN then NaN else if fl_le a b then a else b)"

text \<open>
  \<open>a.min()\<close> of a one-dimensional array raises ValueError on an empty array.
\<close>

definition np_amin :: "vec \<Rightarrow> error + fl" where
  "np_amin v = (case v of [] \<Rightarrow> Inl ValueError | x # xs \<Rightarrow> Inr (foldl fl_min x xs))"

definition np_sum :: "'m env \<Rightarrow> vec \<Rightarrow> fl" where
  "np_sum env v = foldl (fl_add env) (Fin 0) v"

text \<open>
  A binary operation on two one-dimensional arrays: element by element when the lengths
  agree, an array of length one is broadcast, every other pair of shapes raises
  ValueError.
\<close>

definition np_binop :: "(fl \<Rightarrow> fl \<Rightarrow> fl) \<Rightarrow> vec \<Rightarrow> vec \<Rightarrow> error + vec" where
  "np_binop f a b =
     (if length a = length b then Inr (map2 f a b)
      else if length a = 1 then Inr (map (f (hd a)) b)
      else if length b = 1 then Inr (map (\<lambda>x. f x (hd b)) a)
      else Inl ValueError)"

text \<open>Operations of an array with a scalar.\<close>

definition np_add_scalar :: "'m env \<Rightarrow> vec \<Rightarrow> fl \<Rightarrow> vec" where
  "np_add_scalar env v c = map (\<lambda>x. fl_add env x c) v"

definition np_sub_scalar :: "'m env \<Rightarrow> vec \<Rightarrow> fl \<Rightarrow> vec" where
  "np_sub_scalar env v c = map (\<lambda>x. fl_sub env x c) v"

definition np_rdiv :: "'m env \<Rightarrow> fl \<Rightarrow> vec \<Rightarrow> vec" where
  "np_rdiv env c v = map (fl_div env c) v"

definition np_div_scalar :: "'m env \<Rightarrow> vec \<Rightarrow> fl \<Rightarrow> vec" where
  "np_div_scalar env v c = map (\<lambda>x. fl_div env x c) v"

text \<open>\<open>xs[i]\<close> for an index that is never negative.\<close>

definition get :: "'a list \<Rightarrow> nat \<Rightarrow> error + 'a" where
  "get xs i = (if i < length xs then Inr (xs ! i) else Inl IndexError)"

section \<open>The state of a CFModel\<close>

text \<open>
  The attributes of a \<open>CFModel\<close> object, together with the one-dimensional arrays
  they refer to. \<open>self.y\<close>, \<open>self.y_test\<close> and \<open>self.min_coeff\<close> are references
  (indices into \<open>arrays\<close>), so that two names of one array are visible as such;
  \<open>writes\<close> records every element store \<open>a[i] = v\<close> into one of these arrays, in
  program order, as the pair of the array and the index. \<open>linear_models\<close>,
  \<open>X_test\<close> and \<open>y_test\<close> are \<open>None\<close> as long as the attribute has not been
  assigned: reading it then raises AttributeError.
\<close>

record 'm cfmodel =
  depth :: int
  self_norm :: fl
  lasso :: bool
  self_n :: int
  self_m :: int
  self_X :: matrix
  self_y :: nat
  min_coeff :: nat
  linear_models :: "'m list option"
  X_test :: "matrix option"
  y_test :: "nat option"
  arrays :: "vec list"
  writes :: "(nat \<times> nat) list"

text \<open>
  Reading the array behind a reference, allocating a new array, storing an element. A
  reference that the program holds always denotes an array: \<open>refs_ok\<close> below says
  so for the references of the object.
\<close>

definition deref :: "'m cfmodel \<Rightarrow> nat \<Rightarrow> vec" where
  "deref st a = arrays st ! a"

definition alloc :: "vec \<Rightarrow> 'm cfmodel \<Rightarrow> nat \<times> 'm cfmodel" where
  "alloc v st = (length (arrays st), st\<lparr>arrays := arrays st @ [v]\<rparr>)"

definition store_elem :: "nat \<Rightarrow> nat \<Rightarrow> fl \<Rightarrow> 'm cfmodel \<Rightarrow> error + 'm cfmodel" where
  "store_elem a i v st =
     (if i < length (deref st a)
      then Inr (st\<lparr>arrays := (arrays st)[a := (deref st a)[i := v]],
                   writes := writes st @ [(a, i)]\<rparr>)
      else Inl IndexError)"

section \<open>Prediction\<close>

text \<open>
  \<^verbatim>\<open>
  def compute_depth(self, d, X_pred):
      return self.linear_models[d].predict(X_pred)
  \<close>
\<close>

definition compute_depth :: "'m env \<Rightarrow> 'm cfmodel \<Rightarrow> nat \<Rightarrow> matrix \<Rightarrow> error + vec" where
  "compute_depth env st d X_pred =
     (case linear_models st of
        None \<Rightarrow> Inl AttributeError
      | Some ms \<Rightarrow>
          (case get ms d of
             Inl e \<Rightarrow> Inl e
           | Inr model \<Rightarrow> model_predict env model X_pred))"

lemma compute_depth_in_range:
  "compute_depth env st d X_pred = Inr v \<Longrightarrow>
   \<exists>ms. linear_models st = Some ms \<and> d < length ms"
  by (auto simp: compute_depth_def get_def split: option.splits sum.splits if_splits)

text \<open>
  \<^verbatim>\<open>
  def compute_recursive(self, d, X_pred, max_depth, X_pred_orig):
      if d == max_depth - 1:
          return (1 / self.compute_depth(d, X_pred)) - self.min_coeff[d]
      return (1 / (self.compute_depth(d, X_pred)
                   + self.compute_recursive(d + 1, X_pred, max_depth, X_pred_orig))) - self.min_coeff[d]
  \<close>
  The operands are evaluated from left to right, so the sub-model of level \<open>d\<close> is
  read before the recursive call: past the last sub-model the recursion ends in an
  IndexError.
\<close>

function compute_recursive ::
  "'m env \<Rightarrow> 'm cfmodel \<Rightarrow> nat \<Rightarrow> matrix \<Rightarrow> int \<Rightarrow> matrix \<Rightarrow> error + vec" where
  "compute_recursive env st d X_pred max_depth X_pred_orig =
     (if int d = max_depth - 1 then
        (case compute_depth env st d X_pred of
           Inl e \<Rightarrow> Inl e
         | Inr p \<Rightarrow>
             (case get (deref st (min_coeff st)) d of
                Inl e \<Rightarrow> Inl e
              | Inr c \<Rightarrow> Inr (np_sub_scalar env (np_rdiv env (Fin 1) p) c)))
      else
        (case compute_depth env st d X_pred of
           Inl e \<Rightarrow> Inl e
         | Inr p \<Rightarrow>
             (case compute_recursive env st (d + 1) X_pred max_depth X_pred_orig of
                Inl e \<Rightarrow> Inl e
              | Inr r \<Rightarrow>
                  (case np_binop (fl_add env) p r of
                     Inl e \<Rightarrow> Inl e
                   | Inr s \<Rightarrow>
                       (case get (deref st (min_coeff st)) d of
                          Inl e \<Rightarrow> Inl e
                        | Inr c \<Rightarrow> Inr (np_sub_scalar env (np_rdiv env (Fin 1) s) c))))))"
  by pat_completeness auto
termination
proof (relation "measure (\<lambda>(env, st, d, X_pred, max_depth, X_pred_orig).
                   (case linear_models st of None \<Rightarrow> 0 | Some ms \<Rightarrow> length ms) - d)")
  show "wf (measure (\<lambda>(env :: 'm env, st :: 'm cfmodel, d :: nat, X_pred :: matrix,
                       max_depth :: int, X_pred_orig :: matrix).
                   (case linear_models st of None \<Rightarrow> 0 | Some ms \<Rightarrow> length ms) - d))"
    by simp
next
  fix env :: "'m env" and st :: "'m cfmodel" and d :: nat and X_pred :: matrix
    and max_depth :: int and X_pred_orig :: matrix and p :: vec
  assume "compute_depth env st d X_pred = Inr p"
  then obtain ms where "linear_models st = Some ms" "d < length ms"
    using compute_depth_in_range by blast
  then show "((env, st, d + 1, X_pred, max_depth, X_pred_orig),
              (env, st, d, X_pred, max_depth, X_pred_orig))
             \<in> measure (\<lambda>(env, st, d, X_pred, max_depth, X_pred_orig).
                   (case linear_models st of None \<Rightarrow> 0 | Some ms \<Rightarrow> length ms) - d)"
    by simp
qed

declare compute_recursive.simps [simp del]

text \<open>
  \<^verbatim>\<open>
  def predict(self, X_pred, max_depth=None):
      if max_depth is None:
          max_depth = self.depth
      if max_depth < 2:
          return self.compute_depth(0, X_pred)
      return (self.compute_depth(0, X_pred)
              + self.compute_recursive(1, X_pred, max_depth, X_pred))
  \<close>
\<close>

definition predict :: "'m env \<Rightarrow> 'm cfmodel \<Rightarrow> matrix \<Rightarrow> int option \<Rightarrow> error + vec" where
  "predict env st X_pred max_depth_arg =
     (let max_depth = (case max_depth_arg of None \<Rightarrow> depth st | Some k \<Rightarrow> k) in
      if max_depth < 2 then compute_depth env st 0 X_pred
      else
        (case compute_depth env st 0 X_pred of
           Inl e \<Rightarrow> Inl e
         | Inr p \<Rightarrow>
             (case compute_recursive env st 1 X_pred max_depth X_pred of
                Inl e \<Rightarrow> Inl e
              | Inr r \<Rightarrow> np_binop (fl_add env) p r)))"

section \<open>Fitting\<close>

text \<open>
  One iteration of the loop of \<open>fit\<close>, for the loop index \<open>d\<close>; \<open>yfit\<close> is the
  reference held by the local variable of that name. An exception leaves the loop with
  the object as it is at that point.
  \<^verbatim>\<open>
  if self.lasso:
      model = Lasso().fit(self.X, yfit)
  else:
      model = LinearRegression().fit(self.X, yfit)
  self.linear_models.append(model)
  ypred = self.predict(self.X, d + 1)
  residual = yfit - model.predict(self.X)
  self.min_coeff[d + 1] = np.abs(residual.min()) + 1
  residual = residual + self.min_coeff[d + 1]
  yfit = 1 / residual
  \<close>
  The arrays named \<open>ypred\<close> and \<open>residual\<close> are created by the expression that
  binds them and no other name refers to them: they are kept as values. The array bound
  to \<open>yfit\<close> at the end is a new one.
\<close>

definition fit_step ::
  "'m env \<Rightarrow> nat \<Rightarrow> 'm cfmodel \<Rightarrow> nat \<Rightarrow> (error \<times> 'm cfmodel) + ('m cfmodel \<times> nat)" where
  "fit_step env d st yfit =
     (case (if lasso st then lasso_fit env (self_X st) (deref st yfit)
            else linreg_fit env (self_X st) (deref st yfit)) of
        Inl e \<Rightarrow> Inl (e, st)
      | Inr model \<Rightarrow>
     (case linear_models st of
        None \<Rightarrow> Inl (AttributeError, st)
      | Some ms \<Rightarrow>
     (let st1 = st\<lparr>linear_models := Some (ms @ [model])\<rparr> in
     (case predict env st1 (self_X st1) (Some (int d + 1)) of
        Inl e \<Rightarrow> Inl (e, st1)
      | Inr ypred \<Rightarrow>
     (case model_predict env model (self_X st1) of
        Inl e \<Rightarrow> Inl (e, st1)
      | Inr p \<Rightarrow>
     (case np_binop (fl_sub env) (deref st1 yfit) p of
        Inl e \<Rightarrow> Inl (e, st1)
      | Inr residual \<Rightarrow>
     (case np_amin residual of
        Inl e \<Rightarrow> Inl (e, st1)
      | Inr mn \<Rightarrow>
     (case store_elem (min_coeff st1) (d + 1) (fl_add env (fl_abs mn) (Fin 1)) st1 of
        Inl e \<Rightarrow> Inl (e, st1)
      | Inr st2 \<Rightarrow>
     (case get (deref st2 (min_coeff st2)) (d + 1) of
        Inl e \<Rightarrow> Inl (e, st2)
      | Inr c \<Rightarrow>
          Inr (prod.swap (alloc (np_rdiv env (Fin 1) (np_add_scalar env residual c)) st2)))))))))))"

fun fit_loop ::
  "'m env \<Rightarrow> nat list \<Rightarrow> 'm cfmodel \<Rightarrow> nat \<Rightarrow> (error \<times> 'm cfmodel) + 'm cfmodel" where
  "fit_loop env [] st yfit = Inr st"
| "fit_loop env (d # ds) st yfit =
     (case fit_step env d st yfit of
        Inl err \<Rightarrow> Inl err
      | Inr (st', yfit') \<Rightarrow> fit_loop env ds st' yfit')"

text \<open>
  \<^verbatim>\<open>
  def fit(self):
      yfit = self.y
      self.linear_models = []
      for d in range(self.depth):
          ...
  \<close>
  \<open>range(self.depth)\<close> is empty for a depth that is zero or negative.
\<close>

definition fit :: "'m env \<Rightarrow> 'm cfmodel \<Rightarrow> (error \<times> 'm cfmodel) + 'm cfmodel" where
  "fit env st =
     fit_loop env [0..<nat (depth st)] (st\<lparr>linear_models := Some []\<rparr>) (self_y st)"

section \<open>Construction\<close>

text \<open>
  The data file as \<open>read_data\<close> sees it. It is \<open>Inl e\<close> when \<open>open\<close> or the
  reading of the first line (its split into two fields, their \<open>int\<close>) raises \<open>e\<close>.
  Otherwise it is the two integers of the first line and, for each further line, the
  floats on it, or \<open>None\<close> when \<open>float\<close> raises ValueError on a field of the line.
\<close>

record data_file =
  header_n :: int
  header_m :: int
  rows :: "vec option list"

text \<open>
  \<open>self.X[i] = points[1:]\<close>: the list must have the length of the row, or the length
  one (it is then broadcast).
\<close>

definition assign_row :: "matrix \<Rightarrow> nat \<Rightarrow> vec \<Rightarrow> error + matrix" where
  "assign_row X i ps =
     (if length X \<le> i then Inl IndexError
      else if length ps = length (X ! i) then Inr (X[i := ps])
      else if length ps = 1 then Inr (X[i := replicate (length (X ! i)) (hd ps)])
      else Inl ValueError)"

text \<open>
  \<^verbatim>\<open>
  for i, line in enumerate(f):
      points = [float(j) for j in line.split('\t')]
      self.y[i] = points[0]
      self.X[i] = points[1:]
  \<close>
\<close>

fun fill_rows :: "vec option list \<Rightarrow> nat \<Rightarrow> 'm cfmodel \<Rightarrow> error + 'm cfmodel" where
  "fill_rows [] i st = Inr st"
| "fill_rows (line # rest) i st =
     (case line of
        None \<Rightarrow> Inl ValueError
      | Some points \<Rightarrow>
          (case points of
             [] \<Rightarrow> Inl IndexError
           | p0 # ps \<Rightarrow>
               (case store_elem (self_y st) i p0 st of
                  Inl e \<Rightarrow> Inl e
                | Inr st1 \<Rightarrow>
                    (case assign_row (self_X st1) i ps of
                       Inl e \<Rightarrow> Inl e
                     | Inr X' \<Rightarrow> fill_rows rest (i + 1) (st1\<lparr>self_X := X'\<rparr>)))))"

text \<open>
  \<^verbatim>\<open>
  def read_data(self):
      with open(self.data_file, 'r') as f:
          n, m = f.readline().split('\t')
          self.n, self.m = int(n), int(m)
          self.X = np.zeros((self.n, self.m))
          self.y = np.zeros((self.n, ))
          for i, line in enumerate(f):
              ...
      self.min_coeff = np.zeros((self.depth + 2, ))
      self.y /= self.norm
  \<close>
  \<open>np.zeros\<close> raises ValueError for a negative dimension. The division by the norm is
  done in place, on every element.
\<close>

definition read_data :: "'m env \<Rightarrow> error + data_file \<Rightarrow> 'm cfmodel \<Rightarrow> error + 'm cfmodel" where
  "read_data env file st =
     (case file of
        Inl e \<Rightarrow> Inl e
      | Inr f \<Rightarrow>
     (if header_n f < 0 \<or> header_m f < 0 then Inl ValueError
      else
        (let st1 = st\<lparr>self_n := header_n f, self_m := header_m f,
                       self_X := replicate (nat (header_n f))
                                   (replicate (nat (header_m f)) (Fin 0))\<rparr>;
             (a, st2) = alloc (replicate (nat (header_n f)) (Fin 0)) st1
         in (case fill_rows (rows f) 0 (st2\<lparr>self_y := a\<rparr>) of
               Inl e \<Rightarrow> Inl e
             | Inr st3 \<Rightarrow>
                 (if depth st3 + 2 < 0 then Inl ValueError
                  else
                    (let (b, st4) = alloc (replicate (nat (depth st3 + 2)) (Fin 0)) st3;
                         st5 = st4\<lparr>min_coeff := b\<rparr>
                     in Inr (st5\<lparr>arrays := (arrays st5)
                                     [self_y st5 :=
                                        np_div_scalar env (deref st5 (self_y st5))
                                          (self_norm st5)],
                                  writes := writes st5 @
                                     map (\<lambda>i. (self_y st5, i))
                                       [0..<length (deref st5 (self_y st5))]\<rparr>)))))))"

text \<open>
  \<^verbatim>\<open>
  def __init__(self, depth, data_file='../data/functest.in', norm=1, test_size=0.2, lasso=False):
      self.depth = depth
      self.data_file = data_file
      self.norm = norm
      self.lasso = lasso
      self.read_data()
      if test_size > 0:
          self.X, self.X_test, self.y, self.y_test = train_test_split(self.X, self.y, test_size=test_size)
  \<close>
  An exception in the constructor leaves no object.
\<close>

definition blank :: "int \<Rightarrow> fl \<Rightarrow> bool \<Rightarrow> 'm cfmodel" where
  "blank depth_arg norm_arg lasso_arg =
     \<lparr>depth = depth_arg, self_norm = norm_arg, lasso = lasso_arg, self_n = 0, self_m = 0,
      self_X = [], self_y = 0, min_coeff = 0, linear_models = None, X_test = None,
      y_test = None, arrays = [], writes = []\<rparr>"

definition init ::
  "'m env \<Rightarrow> int \<Rightarrow> error + data_file \<Rightarrow> fl \<Rightarrow> fl \<Rightarrow> bool \<Rightarrow> error + 'm cfmodel" where
  "init env depth_arg file norm_arg test_size lasso_arg =
     (case read_data env file (blank depth_arg norm_arg lasso_arg) of
        Inl e \<Rightarrow> Inl e
      | Inr st \<Rightarrow>
          (if fl_lt (Fin 0) test_size then
             (case train_test_split env (self_X st) (deref st (self_y st)) test_size of
                Inl e \<Rightarrow> Inl e
              | Inr (X_tr, X_te, y_tr, y_te) \<Rightarrow>
                  (let (a, st1) = alloc y_tr st;
                       (b, st2) = alloc y_te st1
                   in Inr (st2\<lparr>self_X := X_tr, X_test := Some X_te,
                                self_y := a, y_test := Some b\<rparr>)))
           else Inr st))"

section \<open>Mean squared error\<close>

text \<open>
  \<^verbatim>\<open>
  def mse(self, test=False):
      if test:
          X_pred = self.X_test
          y_true = self.y_test
      else:
          X_pred = self.X
          y_true = self.y
      y_pred = self.predict(X_pred)
      return np.sum((y_pred - y_true)**2) / y_pred.shape[0]
  \<close>
\<close>

definition mse :: "'m env \<Rightarrow> 'm cfmodel \<Rightarrow> bool \<Rightarrow> error + fl" where
  "mse env st test =
     (case (if test then
              (case X_test st of
                 None \<Rightarrow> Inl AttributeError
               | Some X_te \<Rightarrow>
                   (case y_test st of
                      None \<Rightarrow> Inl AttributeError
                    | Some y_te \<Rightarrow> Inr (X_te, deref st y_te)))
            else Inr (self_X st, deref st (self_y st))) of
        Inl e \<Rightarrow> Inl e
      | Inr (X_pred, y_true) \<Rightarrow>
          (case predict env st X_pred None of
             Inl e \<Rightarrow> Inl e
           | Inr y_pred \<Rightarrow>
               (case np_binop (fl_sub env) y_pred y_true of
                  Inl e \<Rightarrow> Inl e
                | Inr diff \<Rightarrow>
                    Inr (fl_div env (np_sum env (map (fl_sq env) diff))
                           (Fin (real (length y_pred)))))))"

section \<open>A regressor for the examples\<close>

text \<open>
  Least squares on a single feature, in closed form: the slope is the covariance over
  the variance (zero for a constant feature), the intercept makes the line pass through
  the means. The Lasso variant shrinks the covariance by the penalty \<open>alpha = 1\<close>
  before dividing. Both reject data that is empty, not finite or not of one column, as
  the input validation of scikit-learn does. They compute in real numbers.
\<close>

fun feature :: "vec \<Rightarrow> real option" where
  "feature [Fin x] = Some x"
| "feature row = None"

fun finite_val :: "fl \<Rightarrow> real option" where
  "finite_val (Fin r) = Some r"
| "finite_val x = None"

definition mean :: "real list \<Rightarrow> real" where
  "mean xs = sum_list xs / real (length xs)"

definition sxx :: "real list \<Rightarrow> real" where
  "sxx xs = sum_list (map (\<lambda>x. (x - mean xs) * (x - mean xs)) xs)"

definition sxy :: "real list \<Rightarrow> real list \<Rightarrow> real" where
  "sxy xs ys = sum_list (map2 (\<lambda>x y. (x - mean xs) * (y - mean ys)) xs ys)"

definition ols_slope :: "real list \<Rightarrow> real list \<Rightarrow> real" where
  "ols_slope xs ys = (if sxx xs = 0 then 0 else sxy xs ys / sxx xs)"

definition lasso_slope :: "real list \<Rightarrow> real list \<Rightarrow> real" where
  "lasso_slope xs ys =
     (let c = sxy xs ys / real (length xs); v = sxx xs / real (length xs)
      in if v = 0 then 0 else if 1 < c then (c - 1) / v
         else if c < - 1 then (c + 1) / v else 0)"

definition simple_fit ::
  "(real list \<Rightarrow> real list \<Rightarrow> real) \<Rightarrow> matrix \<Rightarrow> vec \<Rightarrow> error + (real \<times> real)" where
  "simple_fit slope X y =
     (case those (map feature X) of
        None \<Rightarrow> Inl ValueError
      | Some xs \<Rightarrow>
          (case those (map finite_val y) of
             None \<Rightarrow> Inl ValueError
           | Some ys \<Rightarrow>
               (if xs = [] \<or> length xs \<noteq> length ys then Inl ValueError
                else Inr (slope xs ys, mean ys - slope xs ys * mean xs))))"

definition simple_predict :: "real \<times> real \<Rightarrow> matrix \<Rightarrow> error + vec" where
  "simple_predict model X =
     (case those (map feature X) of
        None \<Rightarrow> Inl ValueError
      | Some xs \<Rightarrow>
          (if xs = [] then Inl ValueError
           else Inr (map (\<lambda>x. Fin (fst model * x + snd model)) xs)))"

text \<open>A split without shuffling: the last rows are the test set.\<close>

definition tail_split ::
  "matrix \<Rightarrow> vec \<Rightarrow> fl \<Rightarrow> error + (matrix \<times> matrix \<times> vec \<times> vec)" where
  "tail_split X y test_size =
     (case test_size of
        Fin t \<Rightarrow>
          (let k = length X - nat \<lceil>t * real (length X)\<rceil>
           in if k = 0 \<or> k = length X then Inl ValueError
              else Inr (take k X, drop k X, take k y, drop k y))
      | _ \<Rightarrow> Inl ValueError)"

text \<open>The environment of the examples, with an arithmetic that does not round.\<close>

definition simple_env :: "(real \<times> real) env" where
  "simple_env = \<lparr>linreg_fit = simple_fit ols_slope, lasso_fit = simple_fit lasso_slope,
                 model_predict = simple_predict, train_test_split = tail_split,
                 nearest = (\<lambda>x. x)\<rparr>"


text \<open>
  A regressor that moreover refuses a constant target: its second call fails on the
  data below.
\<close>

definition strict_fit :: "matrix \<Rightarrow> vec \<Rightarrow> error + (real \<times> real)" where
  "strict_fit X y =
     (if y \<noteq> [] \<and> (\<forall>v \<in> set y. v = hd y) then Inl (OtherError ''constant target'')
      else simple_fit ols_slope X y)"

definition strict_env :: "(real \<times> real) env" where
  "strict_env = simple_env\<lparr>linreg_fit := strict_fit\<rparr>"

text \<open>Three samples of one feature: the targets 1, 3, 2 at the features 1, 2, 3.\<close>

definition demo_file :: data_file where
  "demo_file = \<lparr>header_n = 3, header_m = 1,
                rows = [Some [Fin 1, Fin 1], Some [Fin 3, Fin 2], Some [Fin 2, Fin 3]]\<rparr>"

definition demo_X :: matrix where
  "demo_X = [[Fin 1], [Fin 2], [Fin 3]]"

text \<open>The object that the constructor builds from \<open>demo_file\<close>, for a depth.\<close>

definition demo_new :: "int \<Rightarrow> (real \<times> real) cfmodel" where
  "demo_new D =
     \<lparr>depth = D, self_norm = Fin 1, lasso = False, self_n = 3, self_m = 1,
      self_X = demo_X, self_y = 0, min_coeff = 1,
      linear_models = None, X_test = None, y_test = None,
      arrays = [[Fin 1, Fin 3, Fin 2], replicate (nat (D + 2)) (Fin 0)],
      writes = [(0, 0), (0, 1), (0, 2), (0, 0), (0, 1), (0, 2)]\<rparr>"

text \<open>The same object after \<open>fit\<close>, for the depth 2.\<close>

definition demo_fitted :: "(real \<times> real) cfmodel" where
  "demo_fitted =
     \<lparr>depth = 2, self_norm = Fin 1, lasso = False, self_n = 3, self_m = 1,
      self_X = demo_X, self_y = 0, min_coeff = 1,
      linear_models = Some [(1 / 2, 1), (0, 4 / 5)], X_test = None, y_test = None,
      arrays = [[Fin 1, Fin 3, Fin 2], [Fin 0, Fin (3 / 2), Fin (7 / 5), Fin 0],
                [Fin 1, Fin (2 / 5), Fin 1], [Fin (5 / 8), Fin 1, Fin (5 / 8)]],
      writes = [(0, 0), (0, 1), (0, 2), (0, 0), (0, 1), (0, 2), (1, 1), (1, 2)]\<rparr>"

text \<open>The object between the first and the second iteration of that \<open>fit\<close>.\<close>

definition demo_mid :: "(real \<times> real) cfmodel" where
  "demo_mid =
     \<lparr>depth = 2, self_norm = Fin 1, lasso = False, self_n = 3, self_m = 1,
      self_X = demo_X, self_y = 0, min_coeff = 1,
      linear_models = Some [(1 / 2, 1)], X_test = None, y_test = None,
      arrays = [[Fin 1, Fin 3, Fin 2], [Fin 0, Fin (3 / 2), Fin 0, Fin 0],
                [Fin 1, Fin (2 / 5), Fin 1]],
      writes = [(0, 0), (0, 1), (0, 2), (0, 0), (0, 1), (0, 2), (1, 1)]\<rparr>"

text \<open>
  Three samples on a line: the targets 2, 4, 6 at the features 1, 2, 3. The object that
  the constructor builds from them for the depth 2, and that object after the regressor
  has failed in the second iteration of \<open>fit\<close>.
\<close>

definition line_file :: data_file where
  "line_file = \<lparr>header_n = 3, header_m = 1,
                rows = [Some [Fin 2, Fin 1], Some [Fin 4, Fin 2], Some [Fin 6, Fin 3]]\<rparr>"

definition line_new :: "(real \<times> real) cfmodel" where
  "line_new =
     \<lparr>depth = 2, self_norm = Fin 1, lasso = False, self_n = 3, self_m = 1,
      self_X = demo_X, self_y = 0, min_coeff = 1,
      linear_models = None, X_test = None, y_test = None,
      arrays = [[Fin 2, Fin 4, Fin 6], [Fin 0, Fin 0, Fin 0, Fin 0]],
      writes = [(0, 0), (0, 1), (0, 2), (0, 0), (0, 1), (0, 2)]\<rparr>"

definition line_failed :: "(real \<times> real) cfmodel" where
  "line_failed =
     \<lparr>depth = 2, self_norm = Fin 1, lasso = False, self_n = 3, self_m = 1,
      self_X = demo_X, self_y = 0, min_coeff = 1,
      linear_models = Some [(2, 0)], X_test = None, y_test = None,
      arrays = [[Fin 2, Fin 4, Fin 6], [Fin 0, Fin 1, Fin 0, Fin 0], [Fin 1, Fin 1, Fin 1]],
      writes = [(0, 0), (0, 1), (0, 2), (0, 0), (0, 1), (0, 2), (1, 1)]\<rparr>"







section \<open>Notions of the specification\<close>

text \<open>
  The references of an object are in order when the target array and the offset array
  exist and are two arrays, as after construction.
\<close>

definition refs_ok :: "'m cfmodel \<Rightarrow> bool" where
  "refs_ok st \<longleftrightarrow>
     self_y st < length (arrays st) \<and> min_coeff st < length (arrays st) \<and>
     self_y st \<noteq> min_coeff st"

text \<open>The regressor that the configuration selects, fit on the features of the object.\<close>

definition fit_call :: "'m env \<Rightarrow> 'm cfmodel \<Rightarrow> vec \<Rightarrow> error + 'm" where
  "fit_call env st yv =
     (if lasso st then lasso_fit env (self_X st) yv else linreg_fit env (self_X st) yv)"

text \<open>
  The term \<open>R(d)\<close> of the nested fraction, for the sub-models \<open>ms\<close> and the
  offsets: \<open>R(max_depth - 1) = 1 / sub_model[max_depth - 1].predict(X_pred) - offset[max_depth - 1]\<close>
  and \<open>R(d) = 1 / (sub_model[d].predict(X_pred) + R(d + 1)) - offset[d]\<close> below that.
\<close>

function R :: "'m env \<Rightarrow> 'm list \<Rightarrow> vec \<Rightarrow> matrix \<Rightarrow> nat \<Rightarrow> nat \<Rightarrow> error + vec" where
  "R env ms offset X_pred max_depth d =
     (case model_predict env (ms ! d) X_pred of
        Inl e \<Rightarrow> Inl e
      | Inr p \<Rightarrow>
          (if max_depth \<le> d + 1 then Inr (np_sub_scalar env (np_rdiv env (Fin 1) p) (offset ! d))
           else
             (case R env ms offset X_pred max_depth (d + 1) of
                Inl e \<Rightarrow> Inl e
              | Inr r \<Rightarrow>
                  (case np_binop (fl_add env) p r of
                     Inl e \<Rightarrow> Inl e
                   | Inr s \<Rightarrow> Inr (np_sub_scalar env (np_rdiv env (Fin 1) s) (offset ! d))))))"
  by pat_completeness auto
termination
  by (relation "measure (\<lambda>(env, ms, offset, X_pred, max_depth, d). max_depth - d)") auto

declare R.simps [simp del]

text \<open>The prediction of the specification, for \<open>max_depth\<close> levels.\<close>

definition nested_fraction ::
  "'m env \<Rightarrow> 'm list \<Rightarrow> vec \<Rightarrow> matrix \<Rightarrow> nat \<Rightarrow> error + vec" where
  "nested_fraction env ms offset X_pred max_depth =
     (if max_depth = 1 then model_predict env (ms ! 0) X_pred
      else
        (case model_predict env (ms ! 0) X_pred of
           Inl e \<Rightarrow> Inl e
         | Inr p \<Rightarrow>
             (case R env ms offset X_pred max_depth 1 of
                Inl e \<Rightarrow> Inl e
              | Inr r \<Rightarrow> np_binop (fl_add env) p r)))"

text \<open>
  The targets of the successive depths: \<open>yfit_0 = y\<close> and
  \<open>yfit_(d+1) = 1 / (yfit_d - sub_model[d].predict(X) + offset[d+1])\<close>; the residual of
  depth \<open>d\<close> is \<open>yfit_d - sub_model[d].predict(X)\<close>.
\<close>

fun yfit_seq :: "'m env \<Rightarrow> matrix \<Rightarrow> vec \<Rightarrow> 'm list \<Rightarrow> vec \<Rightarrow> nat \<Rightarrow> error + vec" where
  "yfit_seq env X y ms offset 0 = Inr y"
| "yfit_seq env X y ms offset (Suc d) =
     (case yfit_seq env X y ms offset d of
        Inl e \<Rightarrow> Inl e
      | Inr yd \<Rightarrow>
          (case model_predict env (ms ! d) X of
             Inl e \<Rightarrow> Inl e
           | Inr p \<Rightarrow>
               (case np_binop (fl_sub env) yd p of
                  Inl e \<Rightarrow> Inl e
                | Inr r \<Rightarrow> Inr (np_rdiv env (Fin 1) (np_add_scalar env r (offset ! Suc d))))))"


text \<open>What is assumed of the regressors, where a claim depends on it.\<close>

definition finite_vec :: "vec \<Rightarrow> bool" where
  "finite_vec v \<longleftrightarrow> (\<forall>x \<in> set v. is_finite x)"

text \<open>A prediction has one entry for each row.\<close>

definition predicts_rows :: "'m env \<Rightarrow> bool" where
  "predicts_rows env \<longleftrightarrow>
     (\<forall>model X p. model_predict env model X = Inr p \<longrightarrow> length p = length X)"


text \<open>
  The object built for another depth: the depth is stored, and the offset array has the
  length for it. Nothing else of an object depends on the depth it was built for.
\<close>

definition redepth :: "int \<Rightarrow> 'm cfmodel \<Rightarrow> 'm cfmodel" where
  "redepth D st =
     st\<lparr>depth := D, arrays := (arrays st)[min_coeff st := replicate (nat (D + 2)) (Fin 0)]\<rparr>"



text \<open>The loop of \<open>fit\<close> without the call of \<open>predict\<close> whose result is not used.\<close>

definition fit_step_nocall ::
  "'m env \<Rightarrow> nat \<Rightarrow> 'm cfmodel \<Rightarrow> nat \<Rightarrow> (error \<times> 'm cfmodel) + ('m cfmodel \<times> nat)" where
  "fit_step_nocall env d st yfit =
     (case (if lasso st then lasso_fit env (self_X st) (deref st yfit)
            else linreg_fit env (self_X st) (deref st yfit)) of
        Inl e \<Rightarrow> Inl (e, st)
      | Inr model \<Rightarrow>
     (case linear_models st of
        None \<Rightarrow> Inl (AttributeError, st)
      | Some ms \<Rightarrow>
     (let st1 = st\<lparr>linear_models := Some (ms @ [model])\<rparr> in
     (case model_predict env model (self_X st1) of
        Inl e \<Rightarrow> Inl (e, st1)
      | Inr p \<Rightarrow>
     (case np_binop (fl_sub env) (deref st1 yfit) p of
        Inl e \<Rightarrow> Inl (e, st1)
      | Inr residual \<Rightarrow>
     (case np_amin residual of
        Inl e \<Rightarrow> Inl (e, st1)
      | Inr mn \<Rightarrow>
     (case store_elem (min_coeff st1) (d + 1) (fl_add env (fl_abs mn) (Fin 1)) st1 of
        Inl e \<Rightarrow> Inl (e, st1)
      | Inr st2 \<Rightarrow>
     (case get (deref st2 (min_coeff st2)) (d + 1) of
        Inl e \<Rightarrow> Inl (e, st2)
      | Inr c \<Rightarrow>
          Inr (prod.swap (alloc (np_rdiv env (Fin 1) (np_add_scalar env residual c)) st2))))))))))"

fun fit_loop_nocall ::
  "'m env \<Rightarrow> nat list \<Rightarrow> 'm cfmodel \<Rightarrow> nat \<Rightarrow> (error \<times> 'm cfmodel) + 'm cfmodel" where
  "fit_loop_nocall env [] st yfit = Inr st"
| "fit_loop_nocall env (d # ds) st yfit =
     (case fit_step_nocall env d st yfit of
        Inl err \<Rightarrow> Inl err
      | Inr (st', yfit') \<Rightarrow> fit_loop_nocall env ds st' yfit')"

definition fit_nocall :: "'m env \<Rightarrow> 'm cfmodel \<Rightarrow> (error \<times> 'm cfmodel) + 'm cfmodel" where
  "fit_nocall env st =
     fit_loop_nocall env [0..<nat (depth st)] (st\<lparr>linear_models := Some []\<rparr>) (self_y st)"

text \<open>
  The data that \<open>mse\<close> evaluates on, and the value the specification gives for it:
  \<open>sum((predict(X) - y_true)^2) / len(y_true)\<close>.
\<close>

definition eval_data :: "'m cfmodel \<Rightarrow> bool \<Rightarrow> (matrix \<times> vec) option" where
  "eval_data st test =
     (if test then
        (case (X_test st, y_test st) of
           (Some X_te, Some y_te) \<Rightarrow> Some (X_te, deref st y_te)
         | _ \<Rightarrow> None)
      else Some (self_X st, deref st (self_y st)))"

definition mean_squared_error :: "'m env \<Rightarrow> vec \<Rightarrow> vec \<Rightarrow> fl" where
  "mean_squared_error env y_pred y_true =
     fl_div env (np_sum env (map2 (\<lambda>p t. fl_sq env (fl_sub env p t)) y_pred y_true))
            (Fin (real (length y_true)))"

text \<open>
  The state after \<open>k\<close> iterations of the loop of \<open>fit\<close>, started in \<open>s0\<close>: the
  sub-models \<open>ms\<close>, the offset array \<open>offs\<close> in place of the initial one, the
  arrays created since, and one store into the offset array for each iteration.
\<close>

definition fit_state :: "'m cfmodel \<Rightarrow> 'm list \<Rightarrow> vec \<Rightarrow> vec list \<Rightarrow> nat \<Rightarrow> 'm cfmodel" where
  "fit_state s0 ms offs fresh k =
     s0\<lparr>linear_models := Some ms,
        arrays := (arrays s0)[min_coeff s0 := offs] @ fresh,
        writes := writes s0 @ map (\<lambda>d. (min_coeff s0, d + 1)) [0..<k]\<rparr>"

text \<open>
  What iteration \<open>d\<close> has done: the sub-model \<open>d\<close> is the regressor fit on the
  target of depth \<open>d\<close>, and the offset \<open>d + 1\<close> comes from the minimum of its
  residual.
\<close>

definition iter_ok :: "'m env \<Rightarrow> 'm cfmodel \<Rightarrow> 'm list \<Rightarrow> vec \<Rightarrow> nat \<Rightarrow> bool" where
  "iter_ok env s0 ms offs d \<longleftrightarrow>
     (\<exists>yd p r mn.
        yfit_seq env (self_X s0) (deref s0 (self_y s0)) ms offs d = Inr yd \<and>
        fit_call env s0 yd = Inr (ms ! d) \<and>
        model_predict env (ms ! d) (self_X s0) = Inr p \<and>
        np_binop (fl_sub env) yd p = Inr r \<and>
        np_amin r = Inr mn \<and>
        offs ! (d + 1) = fl_add env (fl_abs mn) (Fin 1))"

definition fit_inv :: "'m env \<Rightarrow> 'm cfmodel \<Rightarrow> nat \<Rightarrow> 'm cfmodel \<Rightarrow> nat \<Rightarrow> bool" where
  "fit_inv env s0 k st yfit \<longleftrightarrow>
     (\<exists>ms offs fresh.
        st = fit_state s0 ms offs fresh k \<and>
        length ms = k \<and>
        length offs = length (deref s0 (min_coeff s0)) \<and>
        (\<forall>i. i = 0 \<or> k < i \<longrightarrow> offs ! i = deref s0 (min_coeff s0) ! i) \<and>
        (k = 0 \<or> k < length offs) \<and>
        yfit < length (arrays st) \<and> yfit \<noteq> min_coeff s0 \<and>
        yfit_seq env (self_X s0) (deref s0 (self_y s0)) ms offs k = Inr (deref st yfit) \<and>
        (\<forall>d<k. iter_ok env s0 ms offs d))"

section \<open>Facts on rounding\<close>

lemma fl_round_not_NaN [simp]: "fl_round env r \<noteq> NaN"
  by (simp add: fl_round_def Let_def)


lemma fl_round_simple: "\<bar>r\<bar> < 2 ^ 1024 \<Longrightarrow> fl_round simple_env r = Fin r"
  by (simp add: fl_round_def simple_env_def Let_def)

lemma fl_round_strict: "\<bar>r\<bar> < 2 ^ 1024 \<Longrightarrow> fl_round strict_env r = Fin r"
  by (simp add: fl_round_def strict_env_def simple_env_def Let_def)






lemma simple_env_sel:
  "linreg_fit simple_env = simple_fit ols_slope"
  "lasso_fit simple_env = simple_fit lasso_slope"
  "model_predict simple_env = simple_predict"
  "train_test_split simple_env = tail_split"
  by (simp_all add: simple_env_def)

lemma strict_env_sel:
  "linreg_fit strict_env = strict_fit"
  "lasso_fit strict_env = simple_fit lasso_slope"
  "model_predict strict_env = simple_predict"
  "train_test_split strict_env = tail_split"
  by (simp_all add: strict_env_def simple_env_def)


section \<open>Prediction follows the nested fraction\<close>

lemma compute_depth_eq:
  "linear_models st = Some ms \<Longrightarrow> d < length ms \<Longrightarrow>
   compute_depth env st d X_pred = model_predict env (ms ! d) X_pred"
  by (simp add: compute_depth_def get_def)

lemma compute_recursive_R:
  "linear_models st = Some ms \<Longrightarrow> d < k \<Longrightarrow> k \<le> length ms \<Longrightarrow>
   k \<le> length (deref st (min_coeff st)) \<Longrightarrow>
   compute_recursive env st d X_pred (int k) X_orig
     = R env ms (deref st (min_coeff st)) X_pred k d"
proof (induction "k - d" arbitrary: d)
  case 0
  then show ?case by simp
next
  case (Suc n)
  show ?case
  proof (cases "d + 1 = k")
    case True
    then show ?thesis
      using Suc.prems
      by (subst compute_recursive.simps, subst R.simps)
         (auto simp: compute_depth_eq get_def split: sum.splits)
  next
    case False
    then have IH: "compute_recursive env st (Suc d) X_pred (int k) X_orig
        = R env ms (deref st (min_coeff st)) X_pred k (Suc d)"
      using Suc by auto
    show ?thesis
      using Suc.prems False
      by (subst compute_recursive.simps, subst R.simps)
         (auto simp: compute_depth_eq get_def IH split: sum.splits)
  qed
qed

section \<open>The loop of fit\<close>

subsection \<open>One iteration\<close>

lemma fit_step_Inr:
  assumes "fit_step env d st yfit = Inr (st', yfit')"
    and "min_coeff st < length (arrays st)"
  shows "\<exists>ms model ypred p residual mn.
     linear_models st = Some ms \<and>
     fit_call env st (deref st yfit) = Inr model \<and>
     predict env (st\<lparr>linear_models := Some (ms @ [model])\<rparr>) (self_X st) (Some (int d + 1)) = Inr ypred \<and>
     model_predict env model (self_X st) = Inr p \<and>
     np_binop (fl_sub env) (deref st yfit) p = Inr residual \<and>
     np_amin residual = Inr mn \<and>
     d + 1 < length (deref st (min_coeff st)) \<and>
     yfit' = length (arrays st) \<and>
     st' = st\<lparr>linear_models := Some (ms @ [model]),
              arrays := (arrays st)[min_coeff st :=
                           (deref st (min_coeff st))[d + 1 := fl_add env (fl_abs mn) (Fin 1)]]
                        @ [np_rdiv env (Fin 1) (np_add_scalar env residual (fl_add env (fl_abs mn) (Fin 1)))],
              writes := writes st @ [(min_coeff st, d + 1)]\<rparr>"
  using assms
  unfolding fit_step_def fit_call_def
  by (auto simp: Let_def store_elem_def deref_def get_def alloc_def
           split: sum.splits option.splits if_splits)

subsection \<open>The loop\<close>

lemma fit_loop_upt_Inr:
  assumes step: "\<And>d st yfit st' yfit'. d < D \<Longrightarrow> P d st yfit \<Longrightarrow>
            fit_step env d st yfit = Inr (st', yfit') \<Longrightarrow> P (Suc d) st' yfit'"
    and "P k st yfit" and "k \<le> D" and "fit_loop env [k..<D] st yfit = Inr st'"
  shows "\<exists>yfit'. P D st' yfit'"
  using assms(2-)
proof (induction "D - k" arbitrary: k st yfit)
  case 0
  then show ?case by auto
next
  case (Suc n)
  then have kD: "k < D" by simp
  then have upt: "[k..<D] = k # [Suc k..<D]" by (simp add: upt_conv_Cons)
  from Suc.prems(3) obtain st1 yfit1 where
    s1: "fit_step env k st yfit = Inr (st1, yfit1)"
    and rest: "fit_loop env [Suc k..<D] st1 yfit1 = Inr st'"
    unfolding upt by (auto split: sum.splits)
  have P1: "P (Suc k) st1 yfit1"
    using step[OF kD Suc.prems(1) s1] .
  have "n = D - Suc k" using Suc.hyps(2) by simp
  from Suc.hyps(1)[OF this P1 _ rest] kD show ?case by simp
qed

lemma fit_loop_upt_Inl:
  assumes step: "\<And>d st yfit st' yfit'. d < D \<Longrightarrow> P d st yfit \<Longrightarrow>
            fit_step env d st yfit = Inr (st', yfit') \<Longrightarrow> P (Suc d) st' yfit'"
    and "P k st yfit" and "fit_loop env [k..<D] st yfit = Inl (e, st')"
  shows "\<exists>d std yfitd. k \<le> d \<and> d < D \<and> P d std yfitd \<and>
           fit_step env d std yfitd = Inl (e, st')"
  using assms(2-)
proof (induction "D - k" arbitrary: k st yfit)
  case 0
  then show ?case by auto
next
  case (Suc n)
  then have kD: "k < D" by simp
  then have upt: "[k..<D] = k # [Suc k..<D]" by (simp add: upt_conv_Cons)
  show ?case
  proof (cases "fit_step env k st yfit")
    case (Inl err)
    then have "fit_step env k st yfit = Inl (e, st')"
      using Suc.prems(2) unfolding upt by simp
    then show ?thesis using kD Suc.prems(1) by blast
  next
    case (Inr res)
    obtain st1 yfit1 where res: "res = (st1, yfit1)" by (cases res)
    have s1: "fit_step env k st yfit = Inr (st1, yfit1)" using Inr res by simp
    have rest: "fit_loop env [Suc k..<D] st1 yfit1 = Inl (e, st')"
      using Suc.prems(2) s1 unfolding upt by simp
    have P1: "P (Suc k) st1 yfit1" using step[OF kD Suc.prems(1) s1] .
    have "n = D - Suc k" using Suc.hyps(2) by simp
    from Suc.hyps(1)[OF this P1 rest] obtain d std yfitd where
      "Suc k \<le> d" "d < D" "P d std yfitd" "fit_step env d std yfitd = Inl (e, st')"
      by blast
    then show ?thesis by (meson Suc_leD)
  qed
qed

subsection \<open>The targets depend on the sub-models and offsets before them\<close>

lemma yfit_seq_cong:
  assumes "\<And>i. i < d \<Longrightarrow> ms ! i = ms' ! i"
    and "\<And>i. 1 \<le> i \<Longrightarrow> i \<le> d \<Longrightarrow> offs ! i = offs' ! i"
  shows "yfit_seq env X y ms offs d = yfit_seq env X y ms' offs' d"
  using assms
proof (induction d)
  case 0
  show ?case by simp
next
  case (Suc d)
  have "yfit_seq env X y ms offs d = yfit_seq env X y ms' offs' d"
    using Suc by simp
  moreover have "ms ! d = ms' ! d" using Suc.prems(1) by simp
  moreover have "offs ! Suc d = offs' ! Suc d" using Suc.prems(2) by simp
  ultimately show ?case by (simp split: sum.splits)
qed

subsection \<open>The invariant of the loop\<close>

lemma iter_ok_cong:
  assumes "iter_ok env s0 ms offs d"
    and "\<And>i. i \<le> d \<Longrightarrow> ms ! i = ms' ! i"
    and "\<And>i. 1 \<le> i \<Longrightarrow> i \<le> d + 1 \<Longrightarrow> offs ! i = offs' ! i"
  shows "iter_ok env s0 ms' offs' d"
proof -
  have "yfit_seq env (self_X s0) (deref s0 (self_y s0)) ms offs d
      = yfit_seq env (self_X s0) (deref s0 (self_y s0)) ms' offs' d"
    by (rule yfit_seq_cong) (use assms in auto)
  moreover have "ms ! d = ms' ! d" using assms(2) by simp
  moreover have "offs ! (d + 1) = offs' ! (d + 1)" using assms(3) by simp
  ultimately show ?thesis using assms(1) unfolding iter_ok_def by auto
qed

lemma fit_inv_start:
  assumes "refs_ok st"
  shows "fit_inv env (st\<lparr>linear_models := Some []\<rparr>) 0 (st\<lparr>linear_models := Some []\<rparr>) (self_y st)"
  unfolding fit_inv_def
  apply (rule exI[of _ "[]"], rule exI[of _ "deref st (min_coeff st)"], rule exI[of _ "[]"])
  using assms
  by (simp add: fit_state_def refs_ok_def deref_def)


lemma fit_state_fields [simp]:
  "linear_models (fit_state s0 ms offs fresh k) = Some ms"
  "self_X (fit_state s0 ms offs fresh k) = self_X s0"
  "self_y (fit_state s0 ms offs fresh k) = self_y s0"
  "min_coeff (fit_state s0 ms offs fresh k) = min_coeff s0"
  "lasso (fit_state s0 ms offs fresh k) = lasso s0"
  "depth (fit_state s0 ms offs fresh k) = depth s0"
  "arrays (fit_state s0 ms offs fresh k) = (arrays s0)[min_coeff s0 := offs] @ fresh"
  "writes (fit_state s0 ms offs fresh k)
     = writes s0 @ map (\<lambda>d. (min_coeff s0, d + 1)) [0..<k]"
  by (simp_all add: fit_state_def)

lemma deref_fit_state_offsets:
  "min_coeff s0 < length (arrays s0) \<Longrightarrow>
   deref (fit_state s0 ms offs fresh k) (min_coeff s0) = offs"
  by (simp add: deref_def nth_append)

lemma deref_fit_state_other:
  "a < length (arrays s0) \<Longrightarrow> a \<noteq> min_coeff s0 \<Longrightarrow>
   deref (fit_state s0 ms offs fresh k) a = deref s0 a"
  by (simp add: deref_def nth_append)

lemma fit_state_step:
  assumes "min_coeff s0 < length (arrays s0)"
  shows "(fit_state s0 ms offs fresh k)
           \<lparr>linear_models := Some (ms @ [model]),
            arrays := (arrays (fit_state s0 ms offs fresh k))[min_coeff s0 := offs'] @ [new],
            writes := writes (fit_state s0 ms offs fresh k) @ [(min_coeff s0, k + 1)]\<rparr>
         = fit_state s0 (ms @ [model]) offs' (fresh @ [new]) (Suc k)"
  using assms by (simp add: fit_state_def list_update_append1)

lemma fit_inv_step:
  assumes inv: "fit_inv env s0 k st yfit"
    and step: "fit_step env k st yfit = Inr (st', yfit')"
    and mc: "min_coeff s0 < length (arrays s0)"
  shows "fit_inv env s0 (Suc k) st' yfit'"
proof -
  from inv obtain ms offs fresh where
    st: "st = fit_state s0 ms offs fresh k"
    and len_ms: "length ms = k"
    and len_offs: "length offs = length (deref s0 (min_coeff s0))"
    and untouched: "\<forall>i. i = 0 \<or> k < i \<longrightarrow> offs ! i = deref s0 (min_coeff s0) ! i"
    and yfit_ok: "yfit < length (arrays st)" "yfit \<noteq> min_coeff s0"
    and seq: "yfit_seq env (self_X s0) (deref s0 (self_y s0)) ms offs k = Inr (deref st yfit)"
    and iters: "\<forall>d<k. iter_ok env s0 ms offs d"
    unfolding fit_inv_def by blast
  have mc_st: "min_coeff st < length (arrays st)" using mc st by simp
  have offs_st: "deref st (min_coeff st) = offs"
    using mc st by (simp add: deref_fit_state_offsets)
  from fit_step_Inr[OF step mc_st] obtain model p residual mn where
    fitted: "fit_call env st (deref st yfit) = Inr model"
    and pred: "model_predict env model (self_X st) = Inr p"
    and res: "np_binop (fl_sub env) (deref st yfit) p = Inr residual"
    and amin: "np_amin residual = Inr mn"
    and in_range: "k + 1 < length offs"
    and yfit': "yfit' = length (arrays st)"
    and st': "st' = st\<lparr>linear_models := Some (ms @ [model]),
              arrays := (arrays st)[min_coeff st :=
                           (deref st (min_coeff st))[k + 1 := fl_add env (fl_abs mn) (Fin 1)]]
                        @ [np_rdiv env (Fin 1) (np_add_scalar env residual (fl_add env (fl_abs mn) (Fin 1)))],
              writes := writes st @ [(min_coeff st, k + 1)]\<rparr>"
    using st offs_st by auto
  define c where "c = fl_add env (fl_abs mn) (Fin 1)"
  define new where "new = np_rdiv env (Fin 1) (np_add_scalar env residual c)"
  define ms' where "ms' = ms @ [model]"
  define offs' where "offs' = offs[k + 1 := c]"
  have st'_eq: "st' = fit_state s0 ms' offs' (fresh @ [new]) (Suc k)"
    unfolding st' offs_st
    using fit_state_step[OF mc, where ms=ms and offs=offs and fresh=fresh and k=k
        and model=model and offs'=offs' and new=new]
    by (simp add: st c_def new_def ms'_def offs'_def)
  have ms'_old: "\<And>i. i < k \<Longrightarrow> ms ! i = ms' ! i"
    using len_ms by (simp add: ms'_def nth_append)
  have ms'_new: "ms' ! k = model" using len_ms by (auto simp: ms'_def)
  have offs'_old: "\<And>i. i \<le> k \<Longrightarrow> offs ! i = offs' ! i"
    by (simp add: offs'_def)
  have offs'_new: "offs' ! (k + 1) = c" using in_range by (simp add: offs'_def)
  have seq_k: "yfit_seq env (self_X s0) (deref s0 (self_y s0)) ms' offs' k = Inr (deref st yfit)"
    using yfit_seq_cong[of k ms ms' offs offs' env "self_X s0" "deref s0 (self_y s0)"]
      ms'_old offs'_old seq by simp
  have fitted0: "fit_call env s0 (deref st yfit) = Inr model"
    using fitted by (auto simp: fit_call_def st split: if_splits)
  have pred0: "model_predict env model (self_X s0) = Inr p"
    using pred by (simp add: st)
  have new_ok: "iter_ok env s0 ms' offs' k"
    unfolding iter_ok_def
    using seq_k fitted0 pred0 res amin offs'_new ms'_new c_def by auto
  have old_ok: "iter_ok env s0 ms' offs' d" if "d < k" for d
  proof (rule iter_ok_cong)
    show "iter_ok env s0 ms offs d" using iters that by simp
    show "\<And>i. i \<le> d \<Longrightarrow> ms ! i = ms' ! i" using ms'_old that by simp
    show "\<And>i. 1 \<le> i \<Longrightarrow> i \<le> d + 1 \<Longrightarrow> offs ! i = offs' ! i" using offs'_old that by simp
  qed
  have all_ok: "\<forall>d<Suc k. iter_ok env s0 ms' offs' d"
    using new_ok old_ok less_Suc_eq by auto
  have deref_new: "deref st' yfit' = new"
    by (simp add: st'_eq yfit' st deref_def nth_append)
  have seq': "yfit_seq env (self_X s0) (deref s0 (self_y s0)) ms' offs' (Suc k)
                = Inr (deref st' yfit')"
    using seq_k ms'_new pred0 res offs'_new by (simp add: deref_new new_def)
  have untouched': "\<forall>i. i = 0 \<or> Suc k < i \<longrightarrow> offs' ! i = deref s0 (min_coeff s0) ! i"
    using untouched by (auto simp: offs'_def)
  have yfit'_ok: "yfit' < length (arrays st')" "yfit' \<noteq> min_coeff s0"
    using mc by (simp_all add: st'_eq yfit' st)
  show ?thesis
    unfolding fit_inv_def
    apply (rule exI[of _ ms'], rule exI[of _ offs'], rule exI[of _ "fresh @ [new]"])
    using st'_eq len_ms len_offs untouched' in_range yfit'_ok seq' all_ok
    by (simp add: ms'_def offs'_def)
qed

subsection \<open>What a run of fit leaves\<close>

lemma fit_state_restart [simp]:
  "fit_state (st\<lparr>linear_models := lm\<rparr>) ms offs fresh k = fit_state st ms offs fresh k"
  by (simp add: fit_state_def)

lemma iter_ok_restart [simp]:
  "iter_ok env (st\<lparr>linear_models := lm\<rparr>) ms offs d = iter_ok env st ms offs d"
  by (simp add: iter_ok_def fit_call_def deref_def)

lemma fit_loop_inv:
  assumes "refs_ok st" and "fit env st = Inr st'"
  shows "\<exists>yfit. fit_inv env (st\<lparr>linear_models := Some []\<rparr>) (nat (depth st)) st' yfit"
proof (rule fit_loop_upt_Inr[where P = "fit_inv env (st\<lparr>linear_models := Some []\<rparr>)"
        and k = 0 and env = env])
  show "fit_inv env (st\<lparr>linear_models := Some []\<rparr>) 0 (st\<lparr>linear_models := Some []\<rparr>) (self_y st)"
    using assms(1) by (rule fit_inv_start)
  show "fit_loop env [0..<nat (depth st)] (st\<lparr>linear_models := Some []\<rparr>) (self_y st) = Inr st'"
    using assms(2) by (simp add: fit_def)
  show "0 \<le> nat (depth st)" by simp
next
  fix d s yfit s' yfit'
  assume "fit_inv env (st\<lparr>linear_models := Some []\<rparr>) d s yfit"
    and "fit_step env d s yfit = Inr (s', yfit')"
  then show "fit_inv env (st\<lparr>linear_models := Some []\<rparr>) (Suc d) s' yfit'"
    using assms(1) by (intro fit_inv_step[where st = s and yfit = yfit]) (simp_all add: refs_ok_def)
qed

lemma fit_Inr_shape:
  assumes "refs_ok st" and "fit env st = Inr st'"
  shows "\<exists>ms offs fresh.
           st' = fit_state st ms offs fresh (nat (depth st)) \<and>
           length ms = nat (depth st) \<and>
           length offs = length (deref st (min_coeff st)) \<and>
           (\<forall>i. i = 0 \<or> nat (depth st) < i \<longrightarrow> offs ! i = deref st (min_coeff st) ! i) \<and>
           (nat (depth st) = 0 \<or> nat (depth st) < length offs) \<and>
           (\<forall>d<nat (depth st). iter_ok env st ms offs d)"
proof -
  from fit_loop_inv[OF assms] obtain yfit where
    "fit_inv env (st\<lparr>linear_models := Some []\<rparr>) (nat (depth st)) st' yfit" ..
  then show ?thesis
    unfolding fit_inv_def by (auto simp: deref_def)
qed

subsection \<open>The example, evaluated\<close>

lemmas simple_defs = simple_env_sel simple_fit_def simple_predict_def ols_slope_def
  lasso_slope_def sxx_def sxy_def mean_def
lemmas numpy_defs = get_def deref_def alloc_def store_elem_def np_binop_def np_amin_def
  np_sum_def fl_min_def fl_sub_def fl_round_simple np_add_scalar_def np_sub_scalar_def
  np_rdiv_def np_div_scalar_def
lemmas predict_defs = predict_def compute_depth_def compute_recursive.simps

lemma demo_init:
  "init simple_env D (Inr demo_file) (Fin 1) (Fin 0) False =
     (if D + 2 < 0 then Inl ValueError else Inr (demo_new D))"
  by (simp add: init_def read_data_def blank_def assign_row_def demo_file_def demo_new_def
      demo_X_def numpy_defs upt_rec eval_nat_numeral)

lemma demo_refs_ok: "refs_ok (demo_new D)"
  by (simp add: refs_ok_def demo_new_def)

lemma demo_fit: "fit simple_env (demo_new 2) = Inr demo_fitted"
  by (simp add: fit_def fit_step_def predict_defs numpy_defs simple_defs demo_new_def
      demo_fitted_def demo_X_def upt_rec eval_nat_numeral)

section \<open>Facts on arrays of floats\<close>

lemma finite_vec_map_Fin_iff [simp]: "finite_vec (map Fin rs)"
  by (simp add: finite_vec_def)

lemma fl_min_Fin [simp]: "fl_min (Fin a) (Fin b) = Fin (min a b)"
  by (simp add: fl_min_def min_def)



lemma np_amin_Nil [simp]: "np_amin [] = Inl ValueError"
  by (simp add: np_amin_def)


lemma fl_lt_Fin [simp]: "fl_lt (Fin a) (Fin b) = (a < b)"
  by auto






section \<open>The regressor of the examples\<close>


lemma those_feature_length: "those (map feature X) = Some xs \<Longrightarrow> length xs = length X"
proof (induction X arbitrary: xs)
  case Nil
  then show ?case by simp
next
  case (Cons row X)
  then show ?case by (auto split: option.splits)
qed

lemma simple_predict_rows: "simple_predict model X = Inr p \<Longrightarrow> length p = length X"
  by (auto simp: simple_predict_def those_feature_length split: option.splits if_splits)



lemma simple_predicts_rows: "predicts_rows simple_env"
  by (simp add: predicts_rows_def simple_env_sel simple_predict_rows)


section \<open>Residuals and offsets\<close>





section \<open>The examples in float64\<close>









section \<open>Facts on construction\<close>

lemma store_elem_Inr:
  "store_elem a i v st = Inr st' \<Longrightarrow>
   st' = st\<lparr>arrays := (arrays st)[a := (deref st a)[i := v]], writes := writes st @ [(a, i)]\<rparr>"
  by (auto simp: store_elem_def split: if_splits)

lemma fill_rows_Inr:
  "fill_rows lines i st = Inr st' \<Longrightarrow>
   depth st' = depth st \<and> self_norm st' = self_norm st \<and> self_y st' = self_y st \<and>
   linear_models st' = linear_models st \<and>
   length (arrays st') = length (arrays st) \<and>
   (\<forall>w \<in> set (writes st'). w \<in> set (writes st) \<or> fst w = self_y st)"
proof (induction lines arbitrary: i st)
  case Nil
  then show ?case by simp
next
  case (Cons points rest)
  from Cons.prems obtain p0 ps st1 X' where
    "points = Some (p0 # ps)" and s: "store_elem (self_y st) i p0 st = Inr st1"
    and "assign_row (self_X st1) i ps = Inr X'"
    and rest: "fill_rows rest (i + 1) (st1\<lparr>self_X := X'\<rparr>) = Inr st'"
    by (auto split: list.splits sum.splits option.splits)
  note st1 = store_elem_Inr[OF s]
  from Cons.IH[OF rest] show ?case
    by (auto simp: st1)
qed

lemma read_data_Inr:
  assumes "read_data env file (blank D norm_arg lasso_arg) = Inr (st :: 'm cfmodel)"
  shows "self_y st = 0 \<and> min_coeff st = 1 \<and> length (arrays st) = 2 \<and>
         arrays st ! 1 = replicate (nat (D + 2)) (Fin 0) \<and> depth st = D \<and> 0 \<le> D + 2 \<and>
         linear_models st = None \<and> (\<forall>w \<in> set (writes st). fst w = 0)"
proof -
  from assms obtain f where opened: "file = Inr f"
    by (cases "file") (simp_all add: read_data_def)
  define s2 :: "'m cfmodel" where
    "s2 = (blank D norm_arg lasso_arg)
       \<lparr>self_n := header_n f, self_m := header_m f,
        self_X := replicate (nat (header_n f)) (replicate (nat (header_m f)) (Fin 0)),
        arrays := [replicate (nat (header_n f)) (Fin 0)], self_y := 0\<rparr>"
  from assms obtain st3 where
    fill: "fill_rows (rows f) 0 s2 = Inr st3"
    and ok: "\<not> depth st3 + 2 < 0"
    and st: "st = st3\<lparr>arrays := ((arrays st3) @ [replicate (nat (depth st3 + 2)) (Fin 0)])
                         [self_y st3 := np_div_scalar env ((arrays st3 @ [replicate (nat (depth st3 + 2)) (Fin 0)]) ! self_y st3) (self_norm st3)],
                      min_coeff := length (arrays st3),
                      writes := writes st3 @ map (\<lambda>i. (self_y st3, i))
                         [0..<length ((arrays st3 @ [replicate (nat (depth st3 + 2)) (Fin 0)]) ! self_y st3)]\<rparr>"
    unfolding read_data_def s2_def opened
    by (auto simp: Let_def alloc_def blank_def deref_def split: sum.splits if_splits)
  from fill_rows_Inr[OF fill] have
    "depth st3 = D" "self_y st3 = 0" "linear_models st3 = None" "length (arrays st3) = 1"
    "\<forall>w \<in> set (writes st3). fst w = 0"
    by (auto simp: s2_def blank_def)
  then show ?thesis
    using ok by (auto simp: st nth_append)
qed

lemma init_Inr:
  fixes st :: "'m cfmodel"
  assumes "init env D file norm_arg test_size lasso_arg = Inr st"
  shows "refs_ok st \<and> depth st = D \<and> 0 \<le> D + 2 \<and>
         deref st (min_coeff st) = replicate (nat (D + 2)) (Fin 0) \<and>
         linear_models st = None \<and> (\<forall>w \<in> set (writes st). fst w \<noteq> min_coeff st)"
proof -
  from assms obtain s1 :: "'m cfmodel" where
    rd: "read_data env file (blank D norm_arg lasso_arg) = Inr s1"
    by (cases "read_data env file (blank D norm_arg lasso_arg :: 'm cfmodel)")
       (simp_all add: init_def)
  note s1 = read_data_Inr[OF rd]
  show ?thesis
  proof (cases "fl_lt (Fin 0) test_size")
    case False
    then have "st = s1" using assms rd by (simp add: init_def)
    then show ?thesis using s1 by (auto simp: refs_ok_def deref_def)
  next
    case True
    then obtain X_tr X_te y_tr y_te where
      "st = s1\<lparr>arrays := arrays s1 @ [y_tr, y_te], self_X := X_tr, X_test := Some X_te,
               self_y := length (arrays s1), y_test := Some (Suc (length (arrays s1)))\<rparr>"
      using assms rd by (auto simp: init_def alloc_def Let_def split: sum.splits)
    then show ?thesis using s1 by (auto simp: refs_ok_def deref_def nth_append)
  qed
qed

lemma fill_rows_Inl:
  "fill_rows lines i st = Inl e \<Longrightarrow> e = IndexError \<or> e = ValueError"
proof (induction lines arbitrary: i st)
  case Nil
  then show ?case by simp
next
  case (Cons points rest)
  then show ?case
    by (auto simp: store_elem_def assign_row_def
             split: list.splits sum.splits if_splits option.splits)
qed

lemma read_data_Inl:
  assumes "read_data env file st = Inl e"
  shows "(case file of Inl e0 \<Rightarrow> e = e0 | Inr f \<Rightarrow> e = IndexError \<or> e = ValueError)"
proof (cases "file")
  case (Inl e0)
  then show ?thesis using assms by (simp add: read_data_def)
next
  case (Inr f)
  then show ?thesis
    using assms unfolding read_data_def
    by (auto simp: Let_def alloc_def split: sum.splits if_splits prod.splits
             dest: fill_rows_Inl)
qed

lemma fit_without_iterations:
  "depth st \<le> 0 \<Longrightarrow> fit env st = Inr (st\<lparr>linear_models := Some []\<rparr>)"
  by (simp add: fit_def)

subsection \<open>Construction does not depend on the depth\<close>

lemma store_elem_depth:
  "store_elem a i v (st\<lparr>depth := D\<rparr>) =
     (case store_elem a i v st of Inl e \<Rightarrow> Inl e | Inr s \<Rightarrow> Inr (s\<lparr>depth := D\<rparr>))"
  by (simp add: store_elem_def deref_def)

lemma fill_rows_depth:
  "fill_rows lines i (st\<lparr>depth := D\<rparr>) =
     (case fill_rows lines i st of Inl e \<Rightarrow> Inl e | Inr s \<Rightarrow> Inr (s\<lparr>depth := D\<rparr>))"
proof (induction lines arbitrary: i st)
  case Nil
  show ?case by simp
next
  case (Cons line rest)
  have step: "st1\<lparr>depth := D, self_X := X'\<rparr> = st1\<lparr>self_X := X', depth := D\<rparr>"
    for st1 :: "'a cfmodel" and X' by simp
  show ?case
    by (simp add: store_elem_depth step Cons.IH
             split: option.splits list.splits sum.splits)
qed

lemma read_data_depth:
  fixes env :: "'m env"
  assumes "0 \<le> D + 2" and "0 \<le> D' + 2"
  shows "read_data env file (blank D' norm_arg lasso_arg) =
     (case read_data env file (blank D norm_arg lasso_arg) of
        Inl e \<Rightarrow> Inl e
      | Inr (s :: 'm cfmodel) \<Rightarrow> Inr (redepth D' s))"
proof (cases "file")
  case (Inl e)
  then show ?thesis by (simp add: read_data_def)
next
  case (Inr f)
  define s2 :: "int \<Rightarrow> 'm cfmodel" where
    "s2 = (\<lambda>E. (blank E norm_arg lasso_arg)
       \<lparr>self_n := header_n f, self_m := header_m f,
        self_X := replicate (nat (header_n f)) (replicate (nat (header_m f)) (Fin 0)),
        arrays := [replicate (nat (header_n f)) (Fin 0)], self_y := 0\<rparr>)"
  have s2: "s2 D' = (s2 D)\<lparr>depth := D'\<rparr>" by (simp add: s2_def blank_def)
  have fill: "fill_rows (rows f) 0 (s2 D') =
      (case fill_rows (rows f) 0 (s2 D) of Inl e \<Rightarrow> Inl e | Inr s \<Rightarrow> Inr (s\<lparr>depth := D'\<rparr>))"
    unfolding s2 by (rule fill_rows_depth)
  have rd: "read_data env file (blank E norm_arg lasso_arg) =
      (if header_n f < 0 \<or> header_m f < 0 then Inl ValueError
       else
         (case fill_rows (rows f) 0 (s2 E) of
            Inl e \<Rightarrow> Inl e
          | Inr st3 \<Rightarrow>
              (if depth st3 + 2 < 0 then Inl ValueError
               else Inr (st3\<lparr>arrays := ((arrays st3) @ [replicate (nat (depth st3 + 2)) (Fin 0)])
                         [self_y st3 := np_div_scalar env ((arrays st3 @ [replicate (nat (depth st3 + 2)) (Fin 0)]) ! self_y st3) (self_norm st3)],
                      min_coeff := length (arrays st3),
                      writes := writes st3 @ map (\<lambda>i. (self_y st3, i))
                         [0..<length ((arrays st3 @ [replicate (nat (depth st3 + 2)) (Fin 0)]) ! self_y st3)]\<rparr>))))"
    for E
    unfolding read_data_def s2_def Inr
    by (simp add: Let_def alloc_def blank_def deref_def split: sum.splits)
  show ?thesis
  proof (cases "fill_rows (rows f) 0 (s2 D)")
    case (Inl e)
    then show ?thesis by (simp add: rd fill)
  next
    case (Inr st3)
    from fill_rows_Inr[OF Inr] have
      st3: "depth st3 = D" "self_y st3 = 0" "length (arrays st3) = 1"
      by (auto simp: s2_def blank_def)
    then obtain a where a: "arrays st3 = [a]" by (cases "arrays st3") auto
    show ?thesis
      using assms by (simp add: rd fill Inr st3 a redepth_def)
  qed
qed

lemma init_depth:
  fixes env :: "'m env"
  assumes "- 2 \<le> D" and "- 2 \<le> D'"
  shows "init env D' file norm_arg test_size lasso_arg =
     (case init env D file norm_arg test_size lasso_arg of
        Inl e \<Rightarrow> Inl e
      | Inr (s :: 'm cfmodel) \<Rightarrow> Inr (redepth D' s))"
proof -
  have D: "0 \<le> D + 2" "0 \<le> D' + 2" using assms by simp_all
  note rd = read_data_depth[OF D, of env "file" norm_arg lasso_arg]
  show ?thesis
  proof (cases "read_data env file (blank D norm_arg lasso_arg :: 'm cfmodel)")
    case (Inl e)
    then show ?thesis using rd by (simp add: init_def)
  next
    case (Inr s)
    from read_data_Inr[OF Inr] have
      s: "self_y s = 0" "min_coeff s = 1" "length (arrays s) = 2" by simp_all
    then obtain a b where ab: "arrays s = [a, b]"
      by (cases "arrays s"; cases "tl (arrays s)") auto
    show ?thesis
      using rd Inr s ab
      by (simp add: init_def redepth_def deref_def alloc_def Let_def
               split: sum.splits prod.splits)
  qed
qed

section \<open>Predictions inside and outside the fitted range\<close>

lemma predict_nested:
  assumes "linear_models st = Some ms" and "1 \<le> k" and "k \<le> length ms"
    and "k \<le> length (deref st (min_coeff st))"
  shows "predict env st X_pred (Some (int k))
           = nested_fraction env ms (deref st (min_coeff st)) X_pred k"
proof (cases "k = 1")
  case True
  have "0 < length ms" using assms(2,3) by linarith
  with assms(1) have "compute_depth env st 0 X_pred = model_predict env (ms ! 0) X_pred"
    by (rule compute_depth_eq)
  then show ?thesis
    using True by (simp add: predict_def nested_fraction_def)
next
  case False
  then have "1 < k" using assms(2) by simp
  then have "compute_recursive env st 1 X_pred (int k) X_pred
               = R env ms (deref st (min_coeff st)) X_pred k 1"
    using assms by (intro compute_recursive_R) simp_all
  moreover have "0 < length ms" using assms(2,3) by linarith
  with assms(1) have "compute_depth env st 0 X_pred = model_predict env (ms ! 0) X_pred"
    by (rule compute_depth_eq)
  ultimately show ?thesis
    using False \<open>1 < k\<close>
    by (simp add: predict_def nested_fraction_def split: sum.splits)
qed

lemma demo_predict_defs:
  "linear_models demo_fitted = Some [(1 / 2, 1), (0, 4 / 5)]"
  "deref demo_fitted (min_coeff demo_fitted) = [Fin 0, Fin (3 / 2), Fin (7 / 5), Fin 0]"
  "depth demo_fitted = 2"
  by (simp_all add: demo_fitted_def deref_def)

lemma compute_depth_beyond:
  "linear_models st = Some ms \<Longrightarrow> length ms \<le> d \<Longrightarrow>
   compute_depth env st d X_pred = Inl IndexError"
  by (simp add: compute_depth_def get_def)

lemma compute_recursive_beyond:
  assumes "linear_models st = Some ms" and "d \<le> length ms" and "int (length ms) < max_depth"
  shows "\<exists>e. compute_recursive env st d X_pred max_depth X_orig = Inl e \<and>
             ((\<forall>i<length ms. \<exists>p. model_predict env (ms ! i) X_pred = Inr p) \<longrightarrow>
              e = IndexError)"
  using assms(2)
proof (induction "length ms - d" arbitrary: d)
  case 0
  then have "length ms \<le> d" by linarith
  with assms(1) have "compute_depth env st d X_pred = Inl IndexError"
    by (rule compute_depth_beyond)
  then show ?case
    by (subst compute_recursive.simps) simp
next
  case (Suc n)
  then have d: "d < length ms" by simp
  then have not_last: "int d \<noteq> max_depth - 1" using assms(3) by simp
  have cd: "compute_depth env st d X_pred = model_predict env (ms ! d) X_pred"
    using assms(1) d by (rule compute_depth_eq)
  have "n = length ms - Suc d" "Suc d \<le> length ms" using Suc.hyps(2) d by linarith+
  from Suc.hyps(1)[OF this] obtain e where
    rec: "compute_recursive env st (Suc d) X_pred max_depth X_orig = Inl e"
    and e: "(\<forall>i<length ms. \<exists>p. model_predict env (ms ! i) X_pred = Inr p) \<longrightarrow> e = IndexError"
    by blast
  show ?case
  proof (cases "model_predict env (ms ! d) X_pred")
    case (Inl e')
    then have "compute_recursive env st d X_pred max_depth X_orig = Inl e'"
      using not_last cd by (subst compute_recursive.simps) simp
    moreover have "\<not> (\<forall>i<length ms. \<exists>p. model_predict env (ms ! i) X_pred = Inr p)"
      using Inl d by auto
    ultimately show ?thesis by blast
  next
    case (Inr p)
    then have "compute_recursive env st d X_pred max_depth X_orig = Inl e"
      using not_last cd rec by (subst compute_recursive.simps) simp
    then show ?thesis using e by simp
  qed
qed

section \<open>A run of fit that raises\<close>

lemma fit_step_Inl:
  assumes "fit_step env d st yfit = Inl (e, st')"
    and "min_coeff st < length (arrays st)"
  shows "st' = st \<or>
         (\<exists>ms model. linear_models st = Some ms \<and>
            st' = st\<lparr>linear_models := Some (ms @ [model])\<rparr>)"
  using assms
  unfolding fit_step_def
  by (auto simp: Let_def store_elem_def deref_def get_def alloc_def
           split: sum.splits option.splits if_splits)

lemma fit_Inl_shape:
  assumes "refs_ok st" and "fit env st = Inl (e, st')"
  shows "\<exists>k ms offs fresh.
           k < nat (depth st) \<and> st' = fit_state st ms offs fresh k \<and>
           (length ms = k \<or> length ms = k + 1) \<and>
           (k = 0 \<or> k < length offs) \<and>
           (\<forall>d<k. iter_ok env st ms offs d)"
proof -
  define s0 where "s0 = st\<lparr>linear_models := Some []\<rparr>"
  have mc: "min_coeff s0 < length (arrays s0)"
    using assms(1) by (simp add: s0_def refs_ok_def)
  have "\<exists>d std yfitd. 0 \<le> d \<and> d < nat (depth st) \<and> fit_inv env s0 d std yfitd \<and>
           fit_step env d std yfitd = Inl (e, st')"
  proof (rule fit_loop_upt_Inl[where P = "fit_inv env s0" and st = s0 and yfit = "self_y st"])
    show "fit_inv env s0 0 s0 (self_y st)"
      unfolding s0_def using assms(1) by (rule fit_inv_start)
    show "fit_loop env [0..<nat (depth st)] s0 (self_y st) = Inl (e, st')"
      using assms(2) by (simp add: fit_def s0_def)
  next
    fix d s yfit s' yfit'
    assume "fit_inv env s0 d s yfit" and "fit_step env d s yfit = Inr (s', yfit')"
    then show "fit_inv env s0 (Suc d) s' yfit'"
      using mc by (rule fit_inv_step)
  qed
  then obtain k std yfitd where
    k: "k < nat (depth st)" and inv: "fit_inv env s0 k std yfitd"
    and step: "fit_step env k std yfitd = Inl (e, st')"
    by blast
  from inv obtain ms offs fresh where
    std: "std = fit_state s0 ms offs fresh k"
    and len: "length ms = k"
    and room: "k = 0 \<or> k < length offs"
    and iters: "\<forall>d<k. iter_ok env s0 ms offs d"
    unfolding fit_inv_def by blast
  have std': "std = fit_state st ms offs fresh k" using std by (simp add: s0_def)
  have iters': "\<forall>d<k. iter_ok env st ms offs d" using iters by (simp add: s0_def)
  have "min_coeff std < length (arrays std)" using mc by (simp add: std)
  from fit_step_Inl[OF step this]
  have "st' = std \<or> (\<exists>model. st' = std\<lparr>linear_models := Some (ms @ [model])\<rparr>)"
    by (auto simp: std)
  then show ?thesis
  proof
    assume "st' = std"
    then show ?thesis using k std' len room iters' by blast
  next
    assume "\<exists>model. st' = std\<lparr>linear_models := Some (ms @ [model])\<rparr>"
    then obtain model where "st' = std\<lparr>linear_models := Some (ms @ [model])\<rparr>" ..
    then have st'_eq: "st' = fit_state st (ms @ [model]) offs fresh k"
      by (simp add: std' fit_state_def)
    have "iter_ok env st (ms @ [model]) offs d" if "d < k" for d
    proof (rule iter_ok_cong)
      show "iter_ok env st ms offs d" using iters' that by simp
      show "\<And>i. i \<le> d \<Longrightarrow> ms ! i = (ms @ [model]) ! i"
        using that len by (simp add: nth_append)
      show "\<And>i. 1 \<le> i \<Longrightarrow> i \<le> d + 1 \<Longrightarrow> offs ! i = offs ! i" by simp
    qed
    then show ?thesis using k st'_eq len room by fastforce
  qed
qed

lemma line_refs_ok: "refs_ok line_new"
  by (simp add: refs_ok_def line_new_def)

lemma line_fit:
  "fit strict_env line_new = Inl (OtherError ''constant target'', line_failed)"
  by (simp add: fit_def fit_step_def predict_defs numpy_defs simple_defs strict_env_sel fl_round_strict
      strict_fit_def line_new_def line_failed_def demo_X_def upt_rec eval_nat_numeral)

section \<open>Facts on predictions and the error\<close>

subsection \<open>The shape of a prediction\<close>

lemma np_binop_same_length:
  "length a = length b \<Longrightarrow> np_binop f a b = Inr (map2 f a b)"
  by (simp add: np_binop_def)

lemma compute_depth_rows:
  "predicts_rows env \<Longrightarrow> compute_depth env st d X_pred = Inr p \<Longrightarrow> length p = length X_pred"
  by (auto simp: compute_depth_def predicts_rows_def split: option.splits sum.splits)

lemma np_binop_length:
  "np_binop f a b = Inr s \<Longrightarrow> length a = n \<Longrightarrow> length b = n \<Longrightarrow> length s = n"
  by (auto simp: np_binop_def split: if_splits)

lemma compute_recursive_rows:
  "predicts_rows env \<Longrightarrow>
   compute_recursive env st d X_pred max_depth X_orig = Inr v \<Longrightarrow>
   length v = length X_pred"
proof (induction env st d X_pred max_depth X_orig arbitrary: v rule: compute_recursive.induct)
  case (1 env st d X_pred max_depth X_orig)
  note rows = "1.prems"(1) and result = "1.prems"(2)
  show ?case
  proof (cases "int d = max_depth - 1")
    case True
    then obtain p c where "compute_depth env st d X_pred = Inr p"
      and "v = np_sub_scalar env (np_rdiv env (Fin 1) p) c"
      using result
      by (subst (asm) compute_recursive.simps) (auto split: sum.splits)
    then show ?thesis
      using compute_depth_rows[OF rows]
      by (simp add: np_sub_scalar_def np_rdiv_def)
  next
    case False
    then obtain p r s c where p: "compute_depth env st d X_pred = Inr p"
      and r: "compute_recursive env st (d + 1) X_pred max_depth X_orig = Inr r"
      and s: "np_binop (fl_add env) p r = Inr s"
      and v: "v = np_sub_scalar env (np_rdiv env (Fin 1) s) c"
      using result
      by (subst (asm) compute_recursive.simps) (auto split: sum.splits)
    have "length p = length X_pred" using compute_depth_rows[OF rows p] .
    moreover have "length r = length X_pred"
      using "1.IH"[OF False p rows r] .
    ultimately have "length s = length X_pred" using s np_binop_length by blast
    then show ?thesis by (simp add: v np_sub_scalar_def np_rdiv_def)
  qed
qed

lemma predict_rows:
  assumes "predicts_rows env" and "predict env st X_pred max_depth_arg = Inr v"
  shows "length v = length X_pred"
proof -
  define k where "k = (case max_depth_arg of None \<Rightarrow> depth st | Some k \<Rightarrow> k)"
  show ?thesis
  proof (cases "k < 2")
    case True
    then have "compute_depth env st 0 X_pred = Inr v"
      using assms(2) by (simp add: predict_def k_def)
    then show ?thesis using compute_depth_rows[OF assms(1)] by blast
  next
    case False
    then obtain p r where p: "compute_depth env st 0 X_pred = Inr p"
      and r: "compute_recursive env st 1 X_pred k X_pred = Inr r"
      and v: "np_binop (fl_add env) p r = Inr v"
      using assms(2) by (auto simp: predict_def k_def split: sum.splits)
    have "length p = length X_pred" using compute_depth_rows[OF assms(1) p] .
    moreover have "length r = length X_pred" using compute_recursive_rows[OF assms(1) r] .
    ultimately show ?thesis using v np_binop_length by blast
  qed
qed

subsection \<open>Values that are not finite\<close>

lemma fl_add_not_finite: "\<not> is_finite a \<or> \<not> is_finite b \<Longrightarrow> \<not> is_finite (fl_add env a b)"
  by (cases a; cases b) simp_all

lemma fl_sub_not_finite: "\<not> is_finite a \<Longrightarrow> \<not> is_finite (fl_sub env a b)"
  by (cases a; cases b) (simp_all add: fl_sub_def)

lemma fl_sq_not_finite: "\<not> is_finite a \<Longrightarrow> \<not> is_finite (fl_sq env a)"
  by (cases a) simp_all

lemma fl_div_not_finite: "\<not> is_finite a \<Longrightarrow> \<not> is_finite (fl_div env a (Fin r))"
  by (cases a) simp_all

lemma foldl_fl_add_not_finite:
  "\<not> is_finite acc \<or> (\<exists>x \<in> set v. \<not> is_finite x) \<Longrightarrow> \<not> is_finite (foldl (fl_add env) acc v)"
proof (induction v arbitrary: acc)
  case Nil
  then show ?case by simp
next
  case (Cons x v)
  have "\<not> is_finite (fl_add env acc x) \<or> (\<exists>x \<in> set v. \<not> is_finite x)"
    using Cons.prems fl_add_not_finite[of acc x] by auto
  then show ?case using Cons.IH by simp
qed

lemma mean_squared_error_not_finite:
  assumes "length y_pred = length y_true" and "\<exists>x \<in> set y_pred. \<not> is_finite x"
  shows "\<not> is_finite (mean_squared_error env y_pred y_true)"
proof -
  from assms(2) obtain i where i: "i < length y_pred" "\<not> is_finite (y_pred ! i)"
    by (auto simp: in_set_conv_nth)
  define sq where "sq = map2 (\<lambda>p t. fl_sq env (fl_sub env p t)) y_pred y_true"
  have "sq ! i = fl_sq env (fl_sub env (y_pred ! i) (y_true ! i))" "i < length sq"
    using i assms(1) by (simp_all add: sq_def)
  moreover have "\<not> is_finite (fl_sq env (fl_sub env (y_pred ! i) (y_true ! i)))"
    using i(2) by (intro fl_sq_not_finite fl_sub_not_finite)
  ultimately have "\<exists>x \<in> set sq. \<not> is_finite x"
    by (metis nth_mem)
  then have "\<not> is_finite (np_sum env sq)"
    unfolding np_sum_def by (intro foldl_fl_add_not_finite) simp
  then show ?thesis
    unfolding mean_squared_error_def sq_def by (rule fl_div_not_finite)
qed

lemma eval_data_mse:
  "eval_data st test = Some (X, y_true) \<Longrightarrow>
   mse env st test =
     (case predict env st X None of
        Inl e \<Rightarrow> Inl e
      | Inr y_pred \<Rightarrow>
          (case np_binop (fl_sub env) y_pred y_true of
             Inl e \<Rightarrow> Inl e
           | Inr diff \<Rightarrow> Inr (fl_div env (np_sum env (map (fl_sq env) diff)) (Fin (real (length y_pred))))))"
  by (auto simp: eval_data_def mse_def split: if_splits option.splits)

section \<open>The call of predict inside fit\<close>

lemma compute_recursive_total:
  assumes lm: "linear_models st = Some ms" and rows: "predicts_rows env"
    and k: "k \<le> length ms" "k \<le> length (deref st (min_coeff st))"
    and before: "\<forall>i<k - 1. \<exists>p. model_predict env (ms ! i) X_pred = Inr p"
  shows "d < k \<Longrightarrow>
         (case model_predict env (ms ! (k - 1)) X_pred of
            Inl e \<Rightarrow> compute_recursive env st d X_pred (int k) X_orig = Inl e
          | Inr q \<Rightarrow> (\<exists>v. compute_recursive env st d X_pred (int k) X_orig = Inr v \<and>
                          length v = length X_pred))"
proof (induction "k - d" arbitrary: d)
  case 0
  then show ?case by simp
next
  case (Suc n)
  have cd: "compute_depth env st d X_pred = model_predict env (ms ! d) X_pred"
    using lm Suc.prems k(1) by (intro compute_depth_eq) simp_all
  have off: "get (deref st (min_coeff st)) d = Inr (deref st (min_coeff st) ! d)"
    using Suc.prems k(2) by (simp add: get_def)
  show ?case
  proof (cases "d + 1 = k")
    case True
    then have last: "int d = int k - 1" "k - 1 = d" by simp_all
    show ?thesis
    proof (cases "model_predict env (ms ! d) X_pred")
      case (Inl e)
      then show ?thesis
        using last cd by (subst compute_recursive.simps) simp
    next
      case (Inr p)
      then have "length p = length X_pred" using rows by (simp add: predicts_rows_def)
      then show ?thesis
        using last cd off Inr
        by (subst compute_recursive.simps) (simp add: np_sub_scalar_def np_rdiv_def)
    qed
  next
    case False
    then have not_last: "int d \<noteq> int k - 1" and d: "d < k - 1" "Suc d < k"
      using Suc.prems by linarith+
    from before d(1) obtain p where p: "model_predict env (ms ! d) X_pred = Inr p" by blast
    then have lp: "length p = length X_pred" using rows by (simp add: predicts_rows_def)
    have "n = k - Suc d" using Suc.hyps(2) by simp
    note IH = Suc.hyps(1)[OF this d(2)]
    show ?thesis
    proof (cases "model_predict env (ms ! (k - 1)) X_pred")
      case (Inl e)
      then have "compute_recursive env st (Suc d) X_pred (int k) X_orig = Inl e"
        using IH by simp
      then show ?thesis
        using not_last cd p Inl by (subst compute_recursive.simps) simp
    next
      case (Inr q)
      then obtain r where r: "compute_recursive env st (Suc d) X_pred (int k) X_orig = Inr r"
        and lr: "length r = length X_pred"
        using IH by auto
      have "np_binop (fl_add env) p r = Inr (map2 (fl_add env) p r)"
        using lp lr by (intro np_binop_same_length) simp
      then show ?thesis
        using not_last cd p r off Inr lp lr
        by (subst compute_recursive.simps) (simp add: np_sub_scalar_def np_rdiv_def)
    qed
  qed
qed

lemma predict_total:
  assumes lm: "linear_models st = Some ms" and rows: "predicts_rows env"
    and k: "1 \<le> k" "k \<le> length ms"
    and room: "k = 1 \<or> k \<le> length (deref st (min_coeff st))"
    and before: "\<forall>i<k - 1. \<exists>p. model_predict env (ms ! i) X_pred = Inr p"
  shows "(case model_predict env (ms ! (k - 1)) X_pred of
            Inl e \<Rightarrow> predict env st X_pred (Some (int k)) = Inl e
          | Inr q \<Rightarrow> (\<exists>v. predict env st X_pred (Some (int k)) = Inr v))"
proof -
  have "0 < length ms" using k by linarith
  with lm have cd0: "compute_depth env st 0 X_pred = model_predict env (ms ! 0) X_pred"
    by (rule compute_depth_eq)
  show ?thesis
  proof (cases "k = 1")
    case True
    then show ?thesis using cd0 by (simp add: predict_def split: sum.splits)
  next
    case False
    then have two: "\<not> int k < 2" and one: "1 < k" "0 < k - 1" using k(1) by linarith+
    from before one(2) obtain p where p: "model_predict env (ms ! 0) X_pred = Inr p" by blast
    then have lp: "length p = length X_pred" using rows by (simp add: predicts_rows_def)
    have "k \<le> length (deref st (min_coeff st))" using room False by simp
    note rec = compute_recursive_total[OF lm rows k(2) this before one(1), of X_pred]
    show ?thesis
    proof (cases "model_predict env (ms ! (k - 1)) X_pred")
      case (Inl e)
      then have "compute_recursive env st 1 X_pred (int k) X_pred = Inl e"
        using rec by simp
      then show ?thesis using two cd0 p Inl by (simp add: predict_def)
    next
      case (Inr q)
      then obtain r where r: "compute_recursive env st 1 X_pred (int k) X_pred = Inr r"
        and lr: "length r = length X_pred"
        using rec by auto
      have "np_binop (fl_add env) p r = Inr (map2 (fl_add env) p r)"
        using lp lr by (intro np_binop_same_length) simp
      then show ?thesis using two cd0 p r Inr by (simp add: predict_def)
    qed
  qed
qed


lemma fit_step_nocall_eq:
  assumes inv: "fit_inv env s0 k st yfit" and mc: "min_coeff s0 < length (arrays s0)"
    and rows: "predicts_rows env"
  shows "fit_step env k st yfit = fit_step_nocall env k st yfit"
proof (cases "fit_call env st (deref st yfit)")
  case (Inl e)
  then show ?thesis
    by (simp add: fit_step_def fit_step_nocall_def fit_call_def)
next
  case (Inr model)
  from inv obtain ms offs fresh where
    st: "st = fit_state s0 ms offs fresh k"
    and len: "length ms = k"
    and room: "k = 0 \<or> k < length offs"
    and iters: "\<forall>d<k. iter_ok env s0 ms offs d"
    unfolding fit_inv_def by blast
  define st1 where "st1 = st\<lparr>linear_models := Some (ms @ [model])\<rparr>"
  have lm: "linear_models st = Some ms" by (simp add: st)
  have lm1: "linear_models st1 = Some (ms @ [model])" by (simp add: st1_def)
  have X1: "self_X st1 = self_X s0" by (simp add: st1_def st)
  have offs1: "deref st1 (min_coeff st1) = offs"
    using mc by (simp add: st1_def st deref_def nth_append)
  have before: "\<forall>i<(k + 1) - 1. \<exists>p. model_predict env ((ms @ [model]) ! i) (self_X st1) = Inr p"
  proof (intro allI impI)
    fix i assume "i < (k + 1) - 1"
    then have i: "i < k" by simp
    then have "iter_ok env s0 ms offs i" using iters by simp
    then obtain p where "model_predict env (ms ! i) (self_X s0) = Inr p"
      unfolding iter_ok_def by blast
    then show "\<exists>p. model_predict env ((ms @ [model]) ! i) (self_X st1) = Inr p"
      using i len by (simp add: nth_append X1)
  qed
  have last: "(ms @ [model]) ! ((k + 1) - 1) = model" using len by (auto simp: nth_append)
  have call: "(case model_predict env model (self_X st1) of
            Inl e \<Rightarrow> predict env st1 (self_X st1) (Some (int k + 1)) = Inl e
          | Inr q \<Rightarrow> (\<exists>v. predict env st1 (self_X st1) (Some (int k + 1)) = Inr v))"
  proof -
    have k1: "1 \<le> k + 1" and k2: "k + 1 \<le> length (ms @ [model])" using len by simp_all
    have room1: "k + 1 = 1 \<or> k + 1 \<le> length (deref st1 (min_coeff st1))"
      using room offs1 by auto
    have cast: "int (k + 1) = int k + 1" by simp
    from predict_total[OF lm1 rows k1 k2 room1 before] show ?thesis
      unfolding last cast .
  qed
  have step: "fit_step env k st yfit =
     (case predict env st1 (self_X st1) (Some (int k + 1)) of
        Inl e \<Rightarrow> Inl (e, st1)
      | Inr ypred \<Rightarrow> fit_step_nocall env k st yfit)"
    using Inr lm
    by (auto simp: fit_step_def fit_step_nocall_def fit_call_def st1_def Let_def
             split: sum.splits if_splits)
  show ?thesis
  proof (cases "model_predict env model (self_X st1)")
    case (Inl e)
    then have "predict env st1 (self_X st1) (Some (int k + 1)) = Inl e" using call by simp
    moreover have "fit_step_nocall env k st yfit = Inl (e, st1)"
      using Inr lm Inl
      by (auto simp: fit_step_nocall_def fit_call_def st1_def Let_def split: if_splits)
    ultimately show ?thesis using step by simp
  next
    case (Inr q)
    then obtain v where "predict env st1 (self_X st1) (Some (int k + 1)) = Inr v"
      using call by auto
    then show ?thesis using step by simp
  qed
qed

lemma fit_loop_nocall_eq:
  assumes mc: "min_coeff s0 < length (arrays s0)" and rows: "predicts_rows env"
  shows "fit_inv env s0 k st yfit \<Longrightarrow>
         fit_loop env [k..<D] st yfit = fit_loop_nocall env [k..<D] st yfit"
proof (induction "D - k" arbitrary: k st yfit)
  case 0
  then show ?case by simp
next
  case (Suc n)
  then have kD: "k < D" by simp
  then have upt: "[k..<D] = k # [Suc k..<D]" by (simp add: upt_conv_Cons)
  have eq: "fit_step env k st yfit = fit_step_nocall env k st yfit"
    using Suc.prems mc rows by (rule fit_step_nocall_eq)
  show ?case
  proof (cases "fit_step env k st yfit")
    case (Inl err)
    then show ?thesis using eq unfolding upt by simp
  next
    case (Inr res)
    obtain st1 yfit1 where res: "res = (st1, yfit1)" by (cases res)
    have s1: "fit_step env k st yfit = Inr (st1, yfit1)" using Inr res by simp
    have inv1: "fit_inv env s0 (Suc k) st1 yfit1"
      using Suc.prems s1 mc by (rule fit_inv_step)
    have "n = D - Suc k" using Suc.hyps(2) by simp
    from Suc.hyps(1)[OF this inv1] show ?thesis
      using s1 eq unfolding upt by simp
  qed
qed

lemma demo_fit_nocall: "fit_nocall simple_env (demo_new 2) = Inr demo_fitted"
  by (simp add: fit_nocall_def fit_step_nocall_def numpy_defs simple_defs demo_new_def
      demo_fitted_def demo_X_def upt_rec eval_nat_numeral)

section \<open>The claims\<close>

text \<open>
  C1. On a model that \<open>fit\<close> has completed, for every feature matrix and every
  \<open>max_depth\<close> from 1 to the depth, \<open>predict\<close> is the nested fraction of the
  specification: \<open>sub_model[0].predict(X_pred)\<close> for \<open>max_depth = 1\<close>, and
  \<open>sub_model[0].predict(X_pred) + R(1)\<close> otherwise, every level evaluated on the same
  \<open>X_pred\<close>. An exception of a sub-model or of an array operation is the result on
  both sides.
\<close>

theorem predict_is_nested_fraction:
  assumes "refs_ok st0" and "fit env st0 = Inr st"
    and "1 \<le> max_depth" and "max_depth \<le> depth st"
  shows "\<exists>ms. linear_models st = Some ms \<and> int (length ms) = depth st \<and>
           predict env st X_pred (Some max_depth)
             = nested_fraction env ms (deref st (min_coeff st)) X_pred (nat max_depth)"
proof -
  from fit_Inr_shape[OF assms(1,2)] obtain ms offs fresh where
    st: "st = fit_state st0 ms offs fresh (nat (depth st0))"
    and len: "length ms = nat (depth st0)"
    and room: "nat (depth st0) = 0 \<or> nat (depth st0) < length offs"
    by blast
  have depth: "depth st = depth st0" by (simp add: st)
  have offs: "deref st (min_coeff st) = offs"
    using assms(1) by (simp add: st deref_fit_state_offsets refs_ok_def)
  have lm: "linear_models st = Some ms" by (simp add: st)
  have k: "1 \<le> nat max_depth" "nat max_depth \<le> length ms"
    "nat max_depth \<le> length (deref st (min_coeff st))"
    using assms(3,4) len room depth offs by auto
  have "predict env st X_pred (Some (int (nat max_depth)))
          = nested_fraction env ms (deref st (min_coeff st)) X_pred (nat max_depth)"
    using lm k by (rule predict_nested)
  moreover have "int (nat max_depth) = max_depth" using assms(3) by simp
  moreover have "int (length ms) = depth st" using len depth assms(3,4) by simp
  ultimately show ?thesis using lm by simp
qed

theorem predict_is_nested_fraction_witness:
  "refs_ok (demo_new 2) \<and> fit simple_env (demo_new 2) = Inr demo_fitted \<and>
   (1::int) \<le> 2 \<and> 2 \<le> depth demo_fitted \<and>
   predict simple_env demo_fitted demo_X (Some 2)
     = nested_fraction simple_env [(1 / 2, 1), (0, 4 / 5)]
         [Fin 0, Fin (3 / 2), Fin (7 / 5), Fin 0] demo_X 2 \<and>
   predict simple_env demo_fitted demo_X (Some 2) = Inr [Fin (5 / 4), Fin (7 / 4), Fin (9 / 4)]"
proof -
  have h: "(1::int) \<le> 2" "2 \<le> depth demo_fitted" by (simp_all add: demo_predict_defs)
  have v: "predict simple_env demo_fitted demo_X (Some 2)
             = Inr [Fin (5 / 4), Fin (7 / 4), Fin (9 / 4)]"
    by (simp add: predict_defs numpy_defs simple_defs demo_fitted_def demo_X_def)
  show ?thesis
    using predict_is_nested_fraction[OF demo_refs_ok demo_fit h, of demo_X] h v
      demo_refs_ok demo_fit
    by (simp add: demo_predict_defs)
qed

text \<open>
  C2. A run of \<open>fit\<close> that returns has done one iteration for each depth, with no
  early exit: it leaves as many sub-models as the depth and has stored as many offsets.
  The sub-model \<open>d\<close> is the regressor the configuration selects, fit on the unchanged
  features and on the target \<open>yfit_d\<close> of the specification.
\<close>

theorem fit_iterations:
  assumes "refs_ok st" and "fit env st = Inr st'"
  shows "self_X st' = self_X st \<and>
         length (writes st') = length (writes st) + nat (depth st) \<and>
         (\<exists>ms. linear_models st' = Some ms \<and> length ms = nat (depth st) \<and>
            (\<forall>d<nat (depth st). \<exists>yd.
               yfit_seq env (self_X st) (deref st (self_y st)) ms
                 (deref st' (min_coeff st')) d = Inr yd \<and>
               fit_call env st yd = Inr (ms ! d)))"
proof -
  from fit_Inr_shape[OF assms] obtain ms offs fresh where
    st': "st' = fit_state st ms offs fresh (nat (depth st))"
    and len: "length ms = nat (depth st)"
    and iters: "\<forall>d<nat (depth st). iter_ok env st ms offs d"
    by blast
  have offs: "deref st' (min_coeff st') = offs"
    using assms(1) by (simp add: st' deref_fit_state_offsets refs_ok_def)
  show ?thesis
    using len iters unfolding offs iter_ok_def by (auto simp: st')
qed

theorem fit_iterations_witness:
  "refs_ok (demo_new 2) \<and> fit simple_env (demo_new 2) = Inr demo_fitted \<and>
   self_X demo_fitted = self_X (demo_new 2) \<and>
   length (writes demo_fitted) = length (writes (demo_new 2)) + nat (depth (demo_new 2)) \<and>
   (\<exists>ms. linear_models demo_fitted = Some ms \<and> length ms = nat (depth (demo_new 2)) \<and>
      (\<forall>d<nat (depth (demo_new 2)). \<exists>yd.
         yfit_seq simple_env (self_X (demo_new 2)) (deref (demo_new 2) (self_y (demo_new 2))) ms
           (deref demo_fitted (min_coeff demo_fitted)) d = Inr yd \<and>
         fit_call simple_env (demo_new 2) yd = Inr (ms ! d)))"
  using fit_iterations[OF demo_refs_ok demo_fit] demo_refs_ok demo_fit by blast




text \<open>
  C4, as amended. \<open>predict\<close> checks \<open>max_depth\<close> against 2 only. With a
  \<open>max_depth\<close> of 1 or less, zero and negative values included, it returns
  \<open>sub_model[0].predict(X_pred)\<close> and raises nothing. With a \<open>max_depth\<close> above the
  number of sub-models it raises: the IndexError of the list access past the last
  sub-model when the sub-models before it predict, the exception of a sub-model
  otherwise. The model has at least one sub-model.
\<close>

theorem predict_outside_range:
  assumes "linear_models st = Some ms" and "ms \<noteq> []"
  shows "(max_depth \<le> 1 \<longrightarrow>
            predict env st X_pred (Some max_depth) = model_predict env (ms ! 0) X_pred) \<and>
         (int (length ms) < max_depth \<longrightarrow>
            (\<exists>e. predict env st X_pred (Some max_depth) = Inl e) \<and>
            ((\<forall>i<length ms. \<exists>p. model_predict env (ms ! i) X_pred = Inr p) \<longrightarrow>
             predict env st X_pred (Some max_depth) = Inl IndexError))"
proof -
  have cd0: "compute_depth env st 0 X_pred = model_predict env (ms ! 0) X_pred"
    using assms by (intro compute_depth_eq) simp_all
  have low: "predict env st X_pred (Some max_depth) = model_predict env (ms ! 0) X_pred"
    if "max_depth \<le> 1"
    using that cd0 by (simp add: predict_def)
  have high: "(\<exists>e. predict env st X_pred (Some max_depth) = Inl e) \<and>
            ((\<forall>i<length ms. \<exists>p. model_predict env (ms ! i) X_pred = Inr p) \<longrightarrow>
             predict env st X_pred (Some max_depth) = Inl IndexError)"
    if beyond: "int (length ms) < max_depth"
  proof -
    have two: "\<not> max_depth < 2" using beyond assms(2) by (cases ms) simp_all
    have "1 \<le> length ms" using assms(2) by (cases ms) simp_all
    from compute_recursive_beyond[OF assms(1) this beyond, of env X_pred X_pred]
    obtain e where
      rec: "compute_recursive env st 1 X_pred max_depth X_pred = Inl e"
      and e: "(\<forall>i<length ms. \<exists>p. model_predict env (ms ! i) X_pred = Inr p) \<longrightarrow> e = IndexError"
      by blast
    show ?thesis
    proof (cases "model_predict env (ms ! 0) X_pred")
      case (Inl e')
      then have "predict env st X_pred (Some max_depth) = Inl e'"
        using two cd0 by (simp add: predict_def)
      moreover have "\<not> (\<forall>i<length ms. \<exists>p. model_predict env (ms ! i) X_pred = Inr p)"
        using Inl assms(2) by (cases ms) auto
      ultimately show ?thesis by blast
    next
      case (Inr p)
      then have "predict env st X_pred (Some max_depth) = Inl e"
        using two cd0 rec by (simp add: predict_def)
      then show ?thesis using e by simp
    qed
  qed
  show ?thesis using low high by blast
qed

theorem predict_depth_zero_counterexample:
  "fit simple_env (demo_new 2) = Inr demo_fitted \<and>
   predict simple_env demo_fitted demo_X (Some 0) = Inr [Fin (3 / 2), Fin 2, Fin (5 / 2)] \<and>
   predict simple_env demo_fitted demo_X (Some (- 1)) = Inr [Fin (3 / 2), Fin 2, Fin (5 / 2)]"
proof -
  have "predict simple_env demo_fitted demo_X (Some 0) = Inr [Fin (3 / 2), Fin 2, Fin (5 / 2)]"
    by (simp add: predict_defs numpy_defs simple_defs demo_fitted_def demo_X_def)
  moreover have
    "predict simple_env demo_fitted demo_X (Some (- 1)) = Inr [Fin (3 / 2), Fin 2, Fin (5 / 2)]"
    by (simp add: predict_defs numpy_defs simple_defs demo_fitted_def demo_X_def)
  ultimately show ?thesis using demo_fit by simp
qed

theorem predict_outside_range_witness:
  "linear_models demo_fitted = Some [(1 / 2, 1), (0, 4 / 5)] \<and>
   [(1 / 2, 1), (0, 4 / 5)] \<noteq> ([] :: (real \<times> real) list) \<and>
   predict simple_env demo_fitted demo_X (Some 0)
     = model_predict simple_env ([(1 / 2, 1), (0, 4 / 5)] ! 0) demo_X \<and>
   predict simple_env demo_fitted demo_X (Some 3) = Inl IndexError"
proof -
  have lm: "linear_models demo_fitted = Some [(1 / 2, 1), (0, 4 / 5)]"
    by (simp add: demo_fitted_def)
  have ne: "[(1 / 2, 1), (0, 4 / 5)] \<noteq> ([] :: (real \<times> real) list)" by simp
  have all: "\<forall>i<length [(1 / 2 :: real, 1 :: real), (0, 4 / 5)].
               \<exists>p. model_predict simple_env ([(1 / 2, 1), (0, 4 / 5)] ! i) demo_X = Inr p"
    by (simp add: simple_defs demo_X_def less_Suc_eq eval_nat_numeral)
  have low: "(0::int) \<le> 1" and high: "int (length [(1 / 2 :: real, 1 :: real), (0, 4 / 5)]) < 3"
    by simp_all
  show ?thesis
    using predict_outside_range[OF lm ne, of 0 simple_env demo_X]
      predict_outside_range[OF lm ne, of 3 simple_env demo_X] lm ne all low high
    by blast
qed

text \<open>
  C5, as amended. The depth is not validated. For a depth of 0, -1 or -2 the constructor
  does what it does for every other depth from -2 on, the positive ones among them: it
  raises the same exception or it builds the same object (with the same split into
  training and test data), but for the depth stored and the length \<open>depth + 2\<close>
  of the offset array; \<open>fit\<close> on the object built returns at
  once, with an empty list of sub-models. For a depth below -2 the constructor raises:
  the exception of \<open>open\<close> or of the reading of the first line when the data file
  cannot be opened or its first line cannot be read, and ValueError or IndexError
  otherwise, from the reading of the data or from the allocation of the offset array.
\<close>

theorem nonpositive_depth:
  fixes env :: "'m env"
  assumes "D \<le> 0"
  shows "(- 2 \<le> D \<longrightarrow>
            (\<forall>D'. - 2 \<le> D' \<longrightarrow>
               init env D file norm_arg test_size lasso_arg =
                 (case init env D' file norm_arg test_size lasso_arg of
                    Inl e \<Rightarrow> Inl e
                  | Inr (s :: 'm cfmodel) \<Rightarrow> Inr (redepth D s))) \<and>
            (\<forall>st. init env D file norm_arg test_size lasso_arg = Inr st \<longrightarrow>
               fit env st = Inr (st\<lparr>linear_models := Some []\<rparr>))) \<and>
         (D < - 2 \<longrightarrow>
            (case file of
               Inl e \<Rightarrow> init env D file norm_arg test_size lasso_arg = Inl e
             | Inr f \<Rightarrow>
                 init env D file norm_arg test_size lasso_arg = Inl ValueError \<or>
                 init env D file norm_arg test_size lasso_arg = Inl IndexError))"
proof -
  have same: "init env D file norm_arg test_size lasso_arg =
       (case init env D' file norm_arg test_size lasso_arg of
          Inl e \<Rightarrow> Inl e
        | Inr (s :: 'm cfmodel) \<Rightarrow> Inr (redepth D s))"
    if "- 2 \<le> D" "- 2 \<le> D'" for D'
    using that(2,1) by (rule init_depth)
  have ok: "fit env st = Inr (st\<lparr>linear_models := Some []\<rparr>)"
    if "init env D file norm_arg test_size lasso_arg = Inr st" for st
  proof -
    from init_Inr[OF that] have "depth st = D" by simp
    then show ?thesis using assms fit_without_iterations[of st env] by simp
  qed
  have bad: "(case file of
               Inl e \<Rightarrow> init env D file norm_arg test_size lasso_arg = Inl e
             | Inr f \<Rightarrow>
                 init env D file norm_arg test_size lasso_arg = Inl ValueError \<or>
                 init env D file norm_arg test_size lasso_arg = Inl IndexError)"
    if "D < - 2"
  proof (cases "read_data env file (blank D norm_arg lasso_arg :: 'm cfmodel)")
    case (Inl e)
    then have "init env D file norm_arg test_size lasso_arg = Inl e"
      by (simp add: init_def)
    then show ?thesis using read_data_Inl[OF Inl] by (cases "file") auto
  next
    case (Inr s1)
    from read_data_Inr[OF Inr] have "0 \<le> D + 2" by simp
    then show ?thesis using that by simp
  qed
  show ?thesis using same ok bad by blast
qed

theorem depth_zero_counterexample:
  "init simple_env 0 (Inr demo_file) (Fin 1) (Fin 0) False = Inr (demo_new 0) \<and>
   fit simple_env (demo_new 0) = Inr ((demo_new 0)\<lparr>linear_models := Some []\<rparr>)"
  by (simp add: demo_init fit_def demo_new_def)

theorem nonpositive_depth_witness:
  "(0::int) \<le> 0 \<and> - 2 \<le> (0::int) \<and> - 2 \<le> (1::int) \<and>
   init simple_env 1 (Inr demo_file) (Fin 1) (Fin 0) False = Inr (demo_new 1) \<and>
   init simple_env 0 (Inr demo_file) (Fin 1) (Fin 0) False = Inr (redepth 0 (demo_new 1)) \<and>
   redepth 0 (demo_new 1) = demo_new 0 \<and>
   fit simple_env (redepth 0 (demo_new 1))
     = Inr ((redepth 0 (demo_new 1))\<lparr>linear_models := Some []\<rparr>) \<and>
   init simple_env 0 (Inl FileNotFoundError) (Fin 1) (Fin 0) False = Inl FileNotFoundError \<and>
   (- 3 :: int) \<le> 0 \<and> (- 3 :: int) < - 2 \<and>
   init simple_env (- 3) (Inr demo_file) (Fin 1) (Fin 0) False = Inl ValueError \<and>
   init simple_env (- 3) (Inl FileNotFoundError) (Fin 1) (Fin 0) False
     = Inl FileNotFoundError"
proof -
  have z: "(0::int) \<le> 0" and z2: "- 2 \<le> (0::int)" and p: "- 2 \<le> (1::int)"
    and m: "(- 3 :: int) \<le> 0" and l: "(- 3 :: int) < - 2" by simp_all
  have i: "init simple_env 1 (Inr demo_file) (Fin 1) (Fin 0) False = Inr (demo_new 1)"
    by (simp add: demo_init)
  have missing: "init simple_env 1 (Inl FileNotFoundError) (Fin 1) (Fin 0) False
      = Inl FileNotFoundError"
    by (simp add: init_def read_data_def)
  have r: "redepth 0 (demo_new 1) = demo_new 0"
    by (simp add: redepth_def demo_new_def eval_nat_numeral)
  have n: "init simple_env (- 3) (Inr demo_file) (Fin 1) (Fin 0) False \<noteq> Inl IndexError"
    by (simp add: demo_init)
  note zero = nonpositive_depth[OF z, of simple_env "Inr demo_file" "Fin 1" "Fin 0" False]
  note zero_missing =
    nonpositive_depth[OF z, of simple_env "Inl FileNotFoundError" "Fin 1" "Fin 0" False]
  note below = nonpositive_depth[OF m, of simple_env "Inr demo_file" "Fin 1" "Fin 0" False]
  note below_missing =
    nonpositive_depth[OF m, of simple_env "Inl FileNotFoundError" "Fin 1" "Fin 0" False]
  have built: "init simple_env 0 (Inr demo_file) (Fin 1) (Fin 0) False
      = Inr (redepth 0 (demo_new 1))"
  proof -
    from zero z2 p have "init simple_env 0 (Inr demo_file) (Fin 1) (Fin 0) False =
        (case init simple_env 1 (Inr demo_file) (Fin 1) (Fin 0) False of
           Inl e \<Rightarrow> Inl e | Inr s \<Rightarrow> Inr (redepth 0 s))"
      by blast
    then show ?thesis by (simp add: i)
  qed
  have fitted: "fit simple_env (redepth 0 (demo_new 1))
      = Inr ((redepth 0 (demo_new 1))\<lparr>linear_models := Some []\<rparr>)"
    using zero z2 built by blast
  have refused: "init simple_env 0 (Inl FileNotFoundError) (Fin 1) (Fin 0) False
      = Inl FileNotFoundError"
  proof -
    from zero_missing z2 p
    have "init simple_env 0 (Inl FileNotFoundError) (Fin 1) (Fin 0) False =
        (case init simple_env 1 (Inl FileNotFoundError) (Fin 1) (Fin 0) False of
           Inl e \<Rightarrow> Inl e | Inr s \<Rightarrow> Inr (redepth 0 s))"
      by blast
    then show ?thesis by (simp add: missing)
  qed
  have b1: "init simple_env (- 3) (Inr demo_file) (Fin 1) (Fin 0) False = Inl ValueError"
    using below l n by simp
  have b2: "init simple_env (- 3) (Inl FileNotFoundError) (Fin 1) (Fin 0) False
      = Inl FileNotFoundError"
    using below_missing l by simp
  show ?thesis
    using z z2 p i built r fitted refused m l b1 b2 by blast
qed

text \<open>
  C6, as amended. \<open>fit\<close> is not atomic. When the iteration \<open>k\<close> raises, the
  exception leaves \<open>fit\<close> with the object as it is: the sub-models of the \<open>k\<close>
  iterations before (and the one of iteration \<open>k\<close>, when it was appended already),
  the offsets those iterations stored, and the target array unchanged. \<open>predict\<close>
  reads them: for a \<open>max_depth\<close> from 1 to \<open>k\<close> it is the nested fraction over
  these sub-models and offsets.
\<close>

theorem fit_failure_keeps_progress:
  assumes "refs_ok st" and "fit env st = Inl (e, st')"
  shows "\<exists>k ms.
           k < nat (depth st) \<and> linear_models st' = Some ms \<and>
           (length ms = k \<or> length ms = k + 1) \<and>
           (\<forall>d<k. iter_ok env st ms (deref st' (min_coeff st')) d) \<and>
           deref st' (self_y st') = deref st (self_y st) \<and>
           (\<forall>md X_pred. 1 \<le> md \<and> md \<le> k \<longrightarrow>
              predict env st' X_pred (Some (int md))
                = nested_fraction env ms (deref st' (min_coeff st')) X_pred md)"
proof -
  from fit_Inl_shape[OF assms] obtain k ms offs fresh where
    k: "k < nat (depth st)" and st': "st' = fit_state st ms offs fresh k"
    and len: "length ms = k \<or> length ms = k + 1"
    and room: "k = 0 \<or> k < length offs"
    and iters: "\<forall>d<k. iter_ok env st ms offs d"
    by blast
  have offs: "deref st' (min_coeff st') = offs"
    using assms(1) by (simp add: st' deref_fit_state_offsets refs_ok_def)
  have y: "deref st' (self_y st') = deref st (self_y st)"
    using assms(1) by (simp add: st' deref_fit_state_other refs_ok_def)
  have lm: "linear_models st' = Some ms" by (simp add: st')
  have pred: "predict env st' X_pred (Some (int md))
                = nested_fraction env ms (deref st' (min_coeff st')) X_pred md"
    if "1 \<le> md \<and> md \<le> k" for md X_pred
  proof (rule predict_nested[OF lm])
    show "1 \<le> md" using that by simp
    show "md \<le> length ms" using that len by auto
    show "md \<le> length (deref st' (min_coeff st'))" using that room offs by auto
  qed
  show ?thesis
    using k lm len iters y pred unfolding offs by blast
qed

theorem partial_fit_counterexample:
  "init strict_env 2 (Inr line_file) (Fin 1) (Fin 0) False = Inr line_new \<and>
   fit strict_env line_new = Inl (OtherError ''constant target'', line_failed) \<and>
   linear_models line_failed = Some [(2, 0)] \<and>
   deref line_failed (min_coeff line_failed) = [Fin 0, Fin 1, Fin 0, Fin 0] \<and>
   predict strict_env line_failed demo_X (Some 1) = Inr [Fin 2, Fin 4, Fin 6]"
proof -
  have "init strict_env 2 (Inr line_file) (Fin 1) (Fin 0) False = Inr line_new"
    by (simp add: init_def read_data_def blank_def assign_row_def line_file_def line_new_def
      demo_X_def numpy_defs fl_round_strict upt_rec eval_nat_numeral)
  moreover have "predict strict_env line_failed demo_X (Some 1) = Inr [Fin 2, Fin 4, Fin 6]"
    by (simp add: predict_defs numpy_defs simple_defs strict_env_sel fl_round_strict
        line_failed_def demo_X_def)
  ultimately show ?thesis
    using line_fit by (simp add: line_failed_def deref_def)
qed

theorem fit_failure_keeps_progress_witness:
  "refs_ok line_new \<and>
   fit strict_env line_new = Inl (OtherError ''constant target'', line_failed) \<and>
   (\<exists>k ms.
      k < nat (depth line_new) \<and> linear_models line_failed = Some ms \<and>
      (length ms = k \<or> length ms = k + 1) \<and>
      (\<forall>d<k. iter_ok strict_env line_new ms (deref line_failed (min_coeff line_failed)) d) \<and>
      deref line_failed (self_y line_failed) = deref line_new (self_y line_new) \<and>
      (\<forall>md X_pred. 1 \<le> md \<and> md \<le> k \<longrightarrow>
         predict strict_env line_failed X_pred (Some (int md))
           = nested_fraction strict_env ms (deref line_failed (min_coeff line_failed)) X_pred md))"
  using fit_failure_keeps_progress[OF line_refs_ok line_fit] line_refs_ok line_fit by blast

text \<open>
  C7, as amended. After \<open>fit\<close> has returned, the target vector \<open>self.y\<close> is the same
  array with the same elements as before the call. The working target \<open>yfit\<close> is not
  a copy: \<open>fit\<close> starts its loop with \<open>yfit\<close> as a second name of the array of
  \<open>self.y\<close>, and creates no array for it. The array is unchanged all the same, because
  \<open>fit\<close> stores no element through that name (every store of the run goes into the
  offset array) and binds the name to a new array at the end of each iteration. The
  regressors are functions of their arguments here: that \<open>fit\<close> of scikit-learn does
  not modify the target it is handed is assumed.
\<close>

theorem fit_keeps_y:
  assumes "refs_ok st" and "fit env st = Inr st'"
  shows "self_y st' = self_y st \<and> deref st' (self_y st') = deref st (self_y st) \<and>
         (\<forall>w \<in> set (drop (length (writes st)) (writes st')). fst w \<noteq> self_y st) \<and>
         fit env st = fit_loop env [0..<nat (depth st)] (st\<lparr>linear_models := Some []\<rparr>)
                        (self_y st) \<and>
         arrays (st\<lparr>linear_models := Some []\<rparr>) = arrays st"
proof -
  from fit_Inr_shape[OF assms] obtain ms offs fresh where
    "st' = fit_state st ms offs fresh (nat (depth st))" by blast
  then have kept: "self_y st' = self_y st \<and> deref st' (self_y st') = deref st (self_y st) \<and>
         (\<forall>w \<in> set (drop (length (writes st)) (writes st')). fst w \<noteq> self_y st)"
    using assms(1) by (auto simp: deref_fit_state_other refs_ok_def)
  have started: "fit env st = fit_loop env [0..<nat (depth st)]
                 (st\<lparr>linear_models := Some []\<rparr>) (self_y st)"
    by (simp add: fit_def)
  have same: "arrays (st\<lparr>linear_models := Some []\<rparr>) = arrays st" by simp
  from kept started same show ?thesis by blast
qed

theorem yfit_alias_counterexample:
  "self_y (demo_new 2) = 0 \<and> length (arrays (demo_new 2)) = 2 \<and>
   fit simple_env (demo_new 2)
     = fit_loop simple_env [0, 1] ((demo_new 2)\<lparr>linear_models := Some []\<rparr>) 0 \<and>
   arrays ((demo_new 2)\<lparr>linear_models := Some []\<rparr>) = arrays (demo_new 2) \<and>
   fit_step simple_env 0 ((demo_new 2)\<lparr>linear_models := Some []\<rparr>) 0 = Inr (demo_mid, 2) \<and>
   length (arrays demo_mid) = 3 \<and>
   fit_step simple_env 1 demo_mid 2 = Inr (demo_fitted, 3) \<and>
   fit simple_env (demo_new 2) = Inr demo_fitted"
proof -
  have loop: "fit simple_env (demo_new 2)
     = fit_loop simple_env [0, 1] ((demo_new 2)\<lparr>linear_models := Some []\<rparr>) 0"
    by (simp add: fit_def demo_new_def upt_rec eval_nat_numeral)
  have first:
    "fit_step simple_env 0 ((demo_new 2)\<lparr>linear_models := Some []\<rparr>) 0 = Inr (demo_mid, 2)"
    by (simp add: fit_step_def predict_defs numpy_defs simple_defs demo_new_def demo_mid_def
        demo_X_def eval_nat_numeral)
  have "fit_step simple_env (Suc 0) demo_mid 2 = Inr (demo_fitted, 3)"
    by (simp add: fit_step_def predict_defs numpy_defs simple_defs demo_mid_def
        demo_fitted_def demo_X_def eval_nat_numeral)
  then have second: "fit_step simple_env 1 demo_mid 2 = Inr (demo_fitted, 3)" by simp
  have refs: "self_y (demo_new 2) = 0" and two: "length (arrays (demo_new 2)) = 2"
    and three: "length (arrays demo_mid) = 3"
    by (simp_all add: demo_new_def demo_mid_def)
  have same: "arrays ((demo_new 2)\<lparr>linear_models := Some []\<rparr>) = arrays (demo_new 2)"
    by simp
  from refs two loop same first three second demo_fit show ?thesis by blast
qed

theorem fit_keeps_y_witness:
  "refs_ok (demo_new 2) \<and> fit simple_env (demo_new 2) = Inr demo_fitted \<and>
   self_y demo_fitted = self_y (demo_new 2) \<and>
   deref demo_fitted (self_y demo_fitted) = deref (demo_new 2) (self_y (demo_new 2)) \<and>
   list_all (\<lambda>w. fst w \<noteq> self_y (demo_new 2))
     (drop (length (writes (demo_new 2))) (writes demo_fitted)) \<and>
   fit simple_env (demo_new 2)
     = fit_loop simple_env [0..<nat (depth (demo_new 2))]
         ((demo_new 2)\<lparr>linear_models := Some []\<rparr>) (self_y (demo_new 2))"
  using fit_keeps_y[OF demo_refs_ok demo_fit] demo_refs_ok demo_fit
  unfolding list_all_iff by blast



text \<open>
  C9. For the stored data \<open>(X, y_true)\<close> that \<open>mse\<close> selects, with as many rows as
  targets, and the prediction \<open>y_pred\<close> of the model on \<open>X\<close>, \<open>mse\<close> returns
  \<open>sum((y_pred - y_true)^2) / len(y_true)\<close>; a prediction that is not finite makes the
  result not finite. \<open>mse\<close> returns a value and no state. A prediction is assumed to
  have one entry for each row.
\<close>

theorem mse_is_mean_squared_error:
  assumes "predicts_rows env" and "eval_data st test = Some (X, y_true)"
    and "length X = length y_true" and "predict env st X None = Inr y_pred"
  shows "mse env st test = Inr (mean_squared_error env y_pred y_true) \<and>
         ((\<exists>x \<in> set y_pred. \<not> is_finite x) \<longrightarrow>
            \<not> is_finite (mean_squared_error env y_pred y_true))"
proof -
  have len: "length y_pred = length y_true"
    using predict_rows[OF assms(1,4)] assms(3) by simp
  have diff: "np_binop (fl_sub env) y_pred y_true = Inr (map2 (fl_sub env) y_pred y_true)"
    using len by (rule np_binop_same_length)
  have sq: "map (fl_sq env) (map2 (fl_sub env) y_pred y_true)
              = map2 (\<lambda>p t. fl_sq env (fl_sub env p t)) y_pred y_true"
    by (simp add: comp_def split_beta)
  have "mse env st test
          = Inr (fl_div env (np_sum env (map (fl_sq env) (map2 (fl_sub env) y_pred y_true)))
                   (Fin (real (length y_pred))))"
    by (simp add: eval_data_mse[OF assms(2)] assms(4) diff)
  then have "mse env st test = Inr (mean_squared_error env y_pred y_true)"
    unfolding sq len mean_squared_error_def .
  then show ?thesis
    using mean_squared_error_not_finite[OF len] by blast
qed

theorem mse_is_mean_squared_error_witness:
  "predicts_rows simple_env \<and>
   eval_data demo_fitted False = Some (demo_X, [Fin 1, Fin 3, Fin 2]) \<and>
   length demo_X = length [Fin 1, Fin 3, Fin 2] \<and>
   predict simple_env demo_fitted demo_X None = Inr [Fin (5 / 4), Fin (7 / 4), Fin (9 / 4)] \<and>
   mse simple_env demo_fitted False
     = Inr (mean_squared_error simple_env [Fin (5 / 4), Fin (7 / 4), Fin (9 / 4)] [Fin 1, Fin 3, Fin 2]) \<and>
   mean_squared_error simple_env [Fin (5 / 4), Fin (7 / 4), Fin (9 / 4)] [Fin 1, Fin 3, Fin 2]
     = Fin (9 / 16) \<and>
   predict simple_env (demo_fitted\<lparr>linear_models := Some [(1 / 2, 1), (1, - 2)]\<rparr>) demo_X None
     = Inr [Fin (- 1), PInf, Fin 2] \<and>
   \<not> is_finite (mean_squared_error simple_env [Fin (- 1), PInf, Fin 2] [Fin 1, Fin 3, Fin 2])"
proof -
  have e: "eval_data demo_fitted False = Some (demo_X, [Fin 1, Fin 3, Fin 2])"
    by (simp add: eval_data_def demo_fitted_def deref_def)
  have l: "length demo_X = length [Fin 1, Fin 3, Fin 2]" by (simp add: demo_X_def)
  have p: "predict simple_env demo_fitted demo_X None
             = Inr [Fin (5 / 4), Fin (7 / 4), Fin (9 / 4)]"
    by (simp add: predict_defs numpy_defs simple_defs demo_fitted_def demo_X_def)
  have v: "mean_squared_error simple_env [Fin (5 / 4), Fin (7 / 4), Fin (9 / 4)] [Fin 1, Fin 3, Fin 2]
             = Fin (9 / 16)"
    by (simp add: mean_squared_error_def np_sum_def fl_sub_def fl_round_simple)
  have e': "eval_data (demo_fitted\<lparr>linear_models := Some [(1 / 2, 1), (1, - 2)]\<rparr>) False
              = Some (demo_X, [Fin 1, Fin 3, Fin 2])"
    by (simp add: eval_data_def demo_fitted_def deref_def)
  have p': "predict simple_env (demo_fitted\<lparr>linear_models := Some [(1 / 2, 1), (1, - 2)]\<rparr>)
              demo_X None = Inr [Fin (- 1), PInf, Fin 2]"
    by (simp add: predict_defs numpy_defs simple_defs demo_fitted_def demo_X_def)
  have n: "\<exists>x \<in> set [Fin (- 1), PInf, Fin 2]. \<not> is_finite x" by simp
  show ?thesis
    using mse_is_mean_squared_error[OF simple_predicts_rows e l p]
      mse_is_mean_squared_error[OF simple_predicts_rows e' l p']
      simple_predicts_rows e l p v p' n
    by blast
qed

text \<open>
  C10. The call \<open>self.predict(self.X, d + 1)\<close> inside the loop of \<open>fit\<close> does not
  change what \<open>fit\<close> does: with and without it, \<open>fit\<close> returns the same object or
  raises the same exception with the same object left behind. The call reads the sub-models
  up to \<open>d\<close> and the offsets from 1 to \<open>d\<close>, all stored by then, so that it raises
  only where the prediction of the sub-model just fit raises; on the model that \<open>fit\<close>
  returns, the call of every iteration yields a value. A prediction is assumed to have one
  entry for each row.
\<close>

theorem fit_ignores_internal_predict:
  assumes "refs_ok st" and "predicts_rows env"
  shows "fit env st = fit_nocall env st \<and>
         (\<forall>st'. fit env st = Inr st' \<longrightarrow>
            (\<forall>d<nat (depth st). \<exists>v.
               predict env st' (self_X st') (Some (int d + 1)) = Inr v))"
proof -
  define s0 where "s0 = st\<lparr>linear_models := Some []\<rparr>"
  have mc: "min_coeff s0 < length (arrays s0)"
    using assms(1) by (simp add: s0_def refs_ok_def)
  have "fit_inv env s0 0 s0 (self_y st)"
    unfolding s0_def using assms(1) by (rule fit_inv_start)
  with mc assms(2) have
    "fit_loop env [0..<nat (depth st)] s0 (self_y st)
       = fit_loop_nocall env [0..<nat (depth st)] s0 (self_y st)"
    by (rule fit_loop_nocall_eq)
  then have same: "fit env st = fit_nocall env st"
    by (simp add: fit_def fit_nocall_def s0_def)
  have defined: "\<exists>v. predict env st' (self_X st') (Some (int d + 1)) = Inr v"
    if returned: "fit env st = Inr st'" and d: "d < nat (depth st)" for st' d
  proof -
    from fit_Inr_shape[OF assms(1) returned] obtain ms offs fresh where
      st': "st' = fit_state st ms offs fresh (nat (depth st))"
      and len: "length ms = nat (depth st)"
      and room: "nat (depth st) = 0 \<or> nat (depth st) < length offs"
      and iters: "\<forall>d<nat (depth st). iter_ok env st ms offs d"
      by blast
    have lm: "linear_models st' = Some ms" by (simp add: st')
    have X: "self_X st' = self_X st" by (simp add: st')
    have offs: "deref st' (min_coeff st') = offs"
      using assms(1) by (simp add: st' deref_fit_state_offsets refs_ok_def)
    have all: "\<exists>p. model_predict env (ms ! i) (self_X st') = Inr p" if "i < nat (depth st)" for i
    proof -
      have "iter_ok env st ms offs i" using iters that by simp
      then show ?thesis unfolding iter_ok_def X by blast
    qed
    have before: "\<forall>i<(d + 1) - 1. \<exists>p. model_predict env (ms ! i) (self_X st') = Inr p"
      using all d by simp
    from all[OF d] obtain q where q: "model_predict env (ms ! ((d + 1) - 1)) (self_X st') = Inr q"
      by auto
    have k1: "1 \<le> d + 1" and k2: "d + 1 \<le> length ms" using d len by simp_all
    have room1: "d + 1 = 1 \<or> d + 1 \<le> length (deref st' (min_coeff st'))"
      using d room offs by auto
    have cast: "int (d + 1) = int d + 1" by simp
    from predict_total[OF lm assms(2) k1 k2 room1 before] q show ?thesis
      unfolding cast by simp
  qed
  show ?thesis using same defined by blast
qed

theorem fit_ignores_internal_predict_witness:
  "refs_ok (demo_new 2) \<and> predicts_rows simple_env \<and>
   fit simple_env (demo_new 2) = fit_nocall simple_env (demo_new 2) \<and>
   fit_nocall simple_env (demo_new 2) = Inr demo_fitted \<and>
   (\<exists>v. predict simple_env demo_fitted (self_X demo_fitted) (Some (int 1 + 1)) = Inr v)"
proof -
  have d: "(1::nat) < nat (depth (demo_new 2))" by (simp add: demo_new_def)
  show ?thesis
    using fit_ignores_internal_predict[OF demo_refs_ok simple_predicts_rows]
      demo_refs_ok simple_predicts_rows demo_fit demo_fit_nocall d
    by blast
qed

end
